theory Spec2Isabelle
  imports Main "HOL-Library.Sublist"
begin

section \<open>Python strings\<close>

text \<open>
  A Python \<^verbatim>\<open>str\<close> is a sequence of Unicode code points, so a string is a list of
  natural numbers here. \<open>lit\<close> turns an ASCII literal of the source into that form.
\<close>

type_synonym str = "nat list"

definition lit :: "string \<Rightarrow> str" where
  "lit s = map of_char s"

definition nl :: str where
  "nl = [10]"

definition dquote :: str where
  "dquote = [34]"

text \<open>
  \<^verbatim>\<open>str.isalnum\<close> and \<^verbatim>\<open>str.upper\<close> read the interpreter's Unicode character
  database. On ASCII their behaviour is fixed and written out below; beyond ASCII the
  database is a parameter of the model: \<open>uc_isalnum\<close> says whether a code point is
  alphanumeric, \<open>uc_upper\<close> gives its full upper-case mapping, which may be several code
  points long. \<^verbatim>\<open>str.upper\<close> maps code point by code point, without context.
\<close>

record unicode_db =
  uc_isalnum :: "nat \<Rightarrow> bool"
  uc_upper :: "nat \<Rightarrow> nat list"

definition isalnum :: "unicode_db \<Rightarrow> nat \<Rightarrow> bool" where
  "isalnum U c =
     (if c < 128
      then (48 \<le> c \<and> c \<le> 57) \<or> (65 \<le> c \<and> c \<le> 90) \<or> (97 \<le> c \<and> c \<le> 122)
      else uc_isalnum U c)"

definition upper_char :: "unicode_db \<Rightarrow> nat \<Rightarrow> str" where
  "upper_char U c =
     (if c < 128 then (if 97 \<le> c \<and> c \<le> 122 then [c - 32] else [c]) else uc_upper U c)"

definition upper :: "unicode_db \<Rightarrow> str \<Rightarrow> str" where
  "upper U s = concat (map (upper_char U) s)"

text \<open>\<^verbatim>\<open>s.replace(old, new)\<close> for a pattern \<open>old\<close> of one character.\<close>

definition str_replace :: "nat \<Rightarrow> str \<Rightarrow> str \<Rightarrow> str" where
  "str_replace old new s = concat (map (\<lambda>c. if c = old then new else [c]) s)"

text \<open>\<^verbatim>\<open>sep.join(parts)\<close>.\<close>

fun join :: "str \<Rightarrow> str list \<Rightarrow> str" where
  "join sep [] = []"
| "join sep [x] = x"
| "join sep (x # y # ys) = x @ sep @ join sep (y # ys)"

text \<open>The decimal text of a non-negative integer, as an f-string formats it.\<close>

fun str_nat :: "nat \<Rightarrow> str" where
  "str_nat n = (if n < 10 then [48 + n] else str_nat (n div 10) @ [48 + n mod 10])"

declare str_nat.simps [simp del]

text \<open>Truthiness of an optional string: \<^verbatim>\<open>None\<close> and the empty string are false.\<close>

fun truthy :: "str option \<Rightarrow> bool" where
  "truthy None = False"
| "truthy (Some s) = (s \<noteq> [])"

section \<open>Schema model\<close>

text \<open>
  Modelled from the spec: the classes \<^verbatim>\<open>Column\<close>, \<^verbatim>\<open>Table\<close> and \<^verbatim>\<open>Metadata\<close> of
  \<^verbatim>\<open>models/metadata.py\<close>, which is not among the source files. The fields are those of
  the spec's data model and of the constructor calls in \<^verbatim>\<open>main.py\<close>. The table
  dictionary keeps insertion order, so it is an association list.
\<close>

record column =
  name :: str
  data_type :: str
  is_primary_key :: bool
  is_foreign_key :: bool
  is_nullable :: bool
  is_unique :: bool
  default_value :: "str option"
  references_table :: "str option"
  references_column :: "str option"
  description :: "str option"

record table =
  name :: str
  columns :: "column list"
  description :: "str option"

record metadata =
  file_id :: str
  tables :: "(str \<times> table) list"

text \<open>
  Modelled from the spec: the derived views \<^verbatim>\<open>Table.primary_keys\<close> and
  \<^verbatim>\<open>Table.foreign_keys\<close>: ``primary_keys = columns with is_primary_key true (order =
  column order); foreign_keys = columns with is_foreign_key true (order = column order)''.
\<close>

definition primary_keys :: "table \<Rightarrow> column list" where
  "primary_keys t = filter is_primary_key (columns t)"

definition foreign_keys :: "table \<Rightarrow> column list" where
  "foreign_keys t = filter is_foreign_key (columns t)"

section \<open>Type mapper (\<^verbatim>\<open>generators/type_mapper.py\<close>)\<close>

definition MYSQL_TYPE_MAP :: "(str \<times> str) list" where
  "MYSQL_TYPE_MAP =
    [(lit ''INTEGER'', lit ''INT''),
     (lit ''INT'', lit ''INT''),
     (lit ''BIGINT'', lit ''BIGINT''),
     (lit ''SMALLINT'', lit ''SMALLINT''),
     (lit ''VARCHAR'', lit ''VARCHAR(255)''),
     (lit ''TEXT'', lit ''TEXT''),
     (lit ''CHAR'', lit ''CHAR''),
     (lit ''BOOLEAN'', lit ''BOOLEAN''),
     (lit ''BOOL'', lit ''BOOLEAN''),
     (lit ''DATE'', lit ''DATE''),
     (lit ''TIMESTAMP'', lit ''TIMESTAMP''),
     (lit ''DATETIME'', lit ''DATETIME''),
     (lit ''DECIMAL'', lit ''DECIMAL(18,2)''),
     (lit ''NUMERIC'', lit ''DECIMAL(18,2)''),
     (lit ''FLOAT'', lit ''FLOAT''),
     (lit ''DOUBLE'', lit ''DOUBLE''),
     (lit ''JSON'', lit ''JSON'')]"

definition map_to_mysql_type :: "unicode_db \<Rightarrow> str \<Rightarrow> str" where
  "map_to_mysql_type U generic_type =
     (case map_of MYSQL_TYPE_MAP (upper U generic_type) of
        Some v \<Rightarrow> v
      | None \<Rightarrow> lit ''VARCHAR(255)'')"

section \<open>MySQL DDL generator (\<^verbatim>\<open>generators/mysql_generator.py\<close>)\<close>

text \<open>
  Modelled from the spec: \<^verbatim>\<open>SQLGenerator._sanitize_name\<close> of \<^verbatim>\<open>generators/base.py\<close>,
  which is not among the source files: ``any character that is not alphanumeric or
  underscore is replaced with underscore; case is preserved for DDL identifiers''.
\<close>

definition sql_sanitize_name :: "unicode_db \<Rightarrow> str \<Rightarrow> str" where
  "sql_sanitize_name U nm = map (\<lambda>c. if isalnum U c \<or> c = 95 then c else 95) nm"

definition map_type :: "unicode_db \<Rightarrow> str \<Rightarrow> str" where
  "map_type U generic_type = map_to_mysql_type U generic_type"

text \<open>
  The list \<^verbatim>\<open>parts\<close> that \<^verbatim>\<open>_generate_column_definition\<close> builds. The default value
  is read only where it has been tested truthy.
\<close>

definition column_definition_parts :: "unicode_db \<Rightarrow> column \<Rightarrow> str list" where
  "column_definition_parts U col =
     [sql_sanitize_name U (column.name col), map_type U (data_type col)]
     @ (if is_primary_key col
           \<and> upper U (data_type col) \<in> set [lit ''INTEGER'', lit ''INT'', lit ''BIGINT'']
        then [lit ''AUTO_INCREMENT''] else [])
     @ (if \<not> is_nullable col then [lit ''NOT NULL''] else [])
     @ (if is_unique col then [lit ''UNIQUE''] else [])
     @ (if truthy (default_value col)
        then [lit ''DEFAULT '' @ the (default_value col)] else [])"

definition generate_column_definition :: "unicode_db \<Rightarrow> column \<Rightarrow> str" where
  "generate_column_definition U col = join (lit '' '') (column_definition_parts U col)"

text \<open>The list \<^verbatim>\<open>col_defs\<close> of \<^verbatim>\<open>_generate_create_table\<close>, as it stands before the join.\<close>

definition create_table_col_defs :: "unicode_db \<Rightarrow> table \<Rightarrow> str list" where
  "create_table_col_defs U t =
     (let col_defs = map (\<lambda>col. lit ''    '' @ generate_column_definition U col) (columns t)
      in if primary_keys t \<noteq> []
         then
           (let pk_cols = map (\<lambda>pk. sql_sanitize_name U (column.name pk)) (primary_keys t);
                pk_constraint = lit ''    PRIMARY KEY ('' @ join (lit '', '') pk_cols @ lit '')''
            in col_defs @ [pk_constraint])
         else col_defs)"

definition generate_create_table :: "unicode_db \<Rightarrow> table \<Rightarrow> str" where
  "generate_create_table U t =
     join nl
       [lit ''CREATE TABLE '' @ sql_sanitize_name U (table.name t) @ lit '' ('',
        join (lit '','' @ nl) (create_table_col_defs U t),
        lit '') ENGINE=InnoDB DEFAULT CHARSET=utf8mb4;'']"

text \<open>
  One statement of \<^verbatim>\<open>_generate_foreign_keys\<close>, for the loop index \<open>idx\<close>. Both
  references are read only after the loop's guard has found them truthy.
\<close>

definition fk_name :: "unicode_db \<Rightarrow> table \<Rightarrow> nat \<Rightarrow> str" where
  "fk_name U t idx = lit ''fk_'' @ sql_sanitize_name U (table.name t) @ lit ''_'' @ str_nat idx"

definition foreign_key_stmt :: "unicode_db \<Rightarrow> table \<Rightarrow> nat \<Rightarrow> column \<Rightarrow> str" where
  "foreign_key_stmt U t idx fk_col =
     lit ''ALTER TABLE '' @ sql_sanitize_name U (table.name t) @ lit '' ''
     @ lit ''ADD CONSTRAINT '' @ fk_name U t idx @ lit '' ''
     @ lit ''FOREIGN KEY ('' @ sql_sanitize_name U (column.name fk_col) @ lit '') ''
     @ lit ''REFERENCES '' @ sql_sanitize_name U (the (references_table fk_col))
     @ lit ''('' @ sql_sanitize_name U (the (references_column fk_col)) @ lit '') ''
     @ lit ''ON DELETE CASCADE ON UPDATE CASCADE;''"

text \<open>
  The loop \<^verbatim>\<open>for idx, fk_col in enumerate(table.foreign_keys, 1)\<close>: \<open>idx\<close> advances on
  every column, also on one that \<^verbatim>\<open>continue\<close> skips.
\<close>

fun generate_foreign_keys_loop ::
  "unicode_db \<Rightarrow> table \<Rightarrow> nat \<Rightarrow> column list \<Rightarrow> str list \<Rightarrow> str list" where
  "generate_foreign_keys_loop U t idx [] statements = statements"
| "generate_foreign_keys_loop U t idx (fk_col # rest) statements =
     (if \<not> truthy (references_table fk_col) \<or> \<not> truthy (references_column fk_col)
      then generate_foreign_keys_loop U t (Suc idx) rest statements
      else generate_foreign_keys_loop U t (Suc idx) rest
             (statements @ [foreign_key_stmt U t idx fk_col]))"

definition generate_foreign_keys :: "unicode_db \<Rightarrow> table \<Rightarrow> str list" where
  "generate_foreign_keys U t = generate_foreign_keys_loop U t 1 (foreign_keys t) []"

definition index_stmt :: "unicode_db \<Rightarrow> table \<Rightarrow> column \<Rightarrow> str" where
  "index_stmt U t fk_col =
     (let idx_name = lit ''idx_'' @ sql_sanitize_name U (table.name t) @ lit ''_''
                     @ sql_sanitize_name U (column.name fk_col)
      in lit ''CREATE INDEX '' @ idx_name @ lit '' ON '' @ sql_sanitize_name U (table.name t)
         @ lit ''('' @ sql_sanitize_name U (column.name fk_col) @ lit '');'')"

fun generate_indexes_loop ::
  "unicode_db \<Rightarrow> table \<Rightarrow> column list \<Rightarrow> str list \<Rightarrow> str list" where
  "generate_indexes_loop U t [] statements = statements"
| "generate_indexes_loop U t (fk_col # rest) statements =
     generate_indexes_loop U t rest (statements @ [index_stmt U t fk_col])"

definition generate_indexes :: "unicode_db \<Rightarrow> table \<Rightarrow> str list" where
  "generate_indexes U t = generate_indexes_loop U t (foreign_keys t) []"

section \<open>Physical ERD generator (\<^verbatim>\<open>erd/physical_erd.py\<close>)\<close>

definition erd_sanitize_name :: "unicode_db \<Rightarrow> str \<Rightarrow> str" where
  "erd_sanitize_name U nm = upper U (map (\<lambda>c. if isalnum U c \<or> c = 95 then c else 95) nm)"

text \<open>The local \<^verbatim>\<open>mysql_type_clean\<close> of \<^verbatim>\<open>_generate_column_line\<close>.\<close>

definition mysql_type_clean :: "str \<Rightarrow> str" where
  "mysql_type_clean mysql_type =
     str_replace 44 (lit ''_'') (str_replace 41 [] (str_replace 40 (lit ''_'') mysql_type))"

text \<open>The local list \<^verbatim>\<open>constraints\<close> of \<^verbatim>\<open>_generate_column_line\<close>.\<close>

definition column_line_constraints :: "unicode_db \<Rightarrow> column \<Rightarrow> str list" where
  "column_line_constraints U col =
     (if is_primary_key col
         \<and> upper U (data_type col) \<in> set [lit ''INTEGER'', lit ''INT'', lit ''BIGINT'']
      then [lit ''AUTO_INCREMENT''] else [])
     @ (if \<not> is_nullable col then [lit ''NOT NULL''] else [])
     @ (if is_unique col then [lit ''UNIQUE''] else [])
     @ (if truthy (default_value col)
        then [lit ''DEFAULT '' @ the (default_value col)] else [])
     @ (if is_foreign_key col then [lit ''INDEX''] else [])"

definition generate_column_line :: "unicode_db \<Rightarrow> column \<Rightarrow> str" where
  "generate_column_line U col =
     (let mysql_type = map_to_mysql_type U (data_type col);
          col_name = erd_sanitize_name U (column.name col);
          key = (if is_primary_key col then lit '' PK''
                 else if is_foreign_key col then lit '' FK'' else []);
          constraints = column_line_constraints U col;
          constraint_str =
            (if constraints \<noteq> []
             then lit '' '' @ dquote @ join (lit '', '') constraints @ dquote else [])
      in mysql_type_clean mysql_type @ lit '' '' @ col_name @ key @ constraint_str)"

definition generate_entity :: "unicode_db \<Rightarrow> table \<Rightarrow> str" where
  "generate_entity U t =
     (let entity_name = erd_sanitize_name U (table.name t);
          mermaid = lit ''    '' @ entity_name @ lit '' {'' @ nl;
          mermaid = foldl (\<lambda>mermaid col.
                      mermaid @ lit ''        '' @ generate_column_line U col @ nl)
                      mermaid (columns t)
      in mermaid @ lit ''    }'' @ nl @ nl)"

definition relationship_line :: "unicode_db \<Rightarrow> table \<Rightarrow> column \<Rightarrow> str" where
  "relationship_line U t fk_col =
     (let from_table = erd_sanitize_name U (the (references_table fk_col));
          to_table = erd_sanitize_name U (table.name t)
      in lit ''    '' @ from_table @ lit '' ||--o{ '' @ to_table @ lit '' : ''
         @ dquote @ lit ''FK, ON DELETE CASCADE'' @ dquote @ nl)"

fun generate_relationships_loop :: "unicode_db \<Rightarrow> table \<Rightarrow> column list \<Rightarrow> str \<Rightarrow> str" where
  "generate_relationships_loop U t [] mermaid = mermaid"
| "generate_relationships_loop U t (fk_col # rest) mermaid =
     (if \<not> truthy (references_table fk_col)
      then generate_relationships_loop U t rest mermaid
      else generate_relationships_loop U t rest (mermaid @ relationship_line U t fk_col))"

definition generate_relationships :: "unicode_db \<Rightarrow> table \<Rightarrow> str" where
  "generate_relationships U t = generate_relationships_loop U t (foreign_keys t) []"

definition generate_mermaid :: "unicode_db \<Rightarrow> metadata \<Rightarrow> str" where
  "generate_mermaid U m =
     (let mermaid = lit ''erDiagram'' @ nl @ nl;
          mermaid = foldl (\<lambda>mermaid (table_name, t). mermaid @ generate_entity U t)
                      mermaid (tables m);
          mermaid = foldl (\<lambda>mermaid (table_name, t). mermaid @ generate_relationships U t)
                      mermaid (tables m)
      in mermaid)"

section \<open>The spec's wording, where it is compared with the code\<close>

text \<open>
  The spec's foreign-key naming: ``a 1-based sequential index over that table's
  qualifying foreign-key columns (index counts only columns that pass the
  reference-completeness check, not all foreign-key-flagged columns)''.
\<close>

definition spec_generate_foreign_keys :: "unicode_db \<Rightarrow> table \<Rightarrow> str list" where
  "spec_generate_foreign_keys U t =
     map (\<lambda>(idx, fk_col). foreign_key_stmt U t idx fk_col)
       (enumerate 1
          (filter (\<lambda>c. truthy (references_table c) \<and> truthy (references_column c))
             (foreign_keys t)))"

text \<open>
  The spec's type token: the dialect type ``with parentheses/commas replaced by
  underscores''.
\<close>

definition spec_type_token :: "str \<Rightarrow> str" where
  "spec_type_token mysql_type =
     map (\<lambda>c. if c = 40 \<or> c = 41 \<or> c = 44 then 95 else c) mysql_type"

text \<open>
  A column definition line carries the AUTO_INCREMENT attribute when that word follows
  the line's head (name and type) and ends the line or is followed by a space.
\<close>

definition auto_increment_follows :: "str \<Rightarrow> str \<Rightarrow> bool" where
  "auto_increment_follows head line =
     (line = head @ lit '' AUTO_INCREMENT'' \<or> prefix (head @ lit '' AUTO_INCREMENT '') line)"

definition column_definition_head :: "unicode_db \<Rightarrow> column \<Rightarrow> str" where
  "column_definition_head U col =
     sql_sanitize_name U (column.name col) @ lit '' '' @ map_type U (data_type col)"

text \<open>
  The number of positions of a text at which a word occurs. For the word AUTO_INCREMENT,
  which cannot overlap itself, this is what \<^verbatim>\<open>str.count\<close> gives.
\<close>

fun occurrences :: "str \<Rightarrow> str \<Rightarrow> nat" where
  "occurrences w [] = 0"
| "occurrences w (x # xs) = (if prefix w (x # xs) then 1 else 0) + occurrences w xs"

text \<open>
  Neither the sanitized name of the table, nor the sanitized name of any of its columns,
  nor any default value contains the word.
\<close>

definition names_and_defaults_without :: "str \<Rightarrow> unicode_db \<Rightarrow> table \<Rightarrow> bool" where
  "names_and_defaults_without w U t =
     (occurrences w (sql_sanitize_name U (table.name t)) = 0
      \<and> list_all
           (\<lambda>c. occurrences w (sql_sanitize_name U (column.name c)) = 0
                \<and> (case default_value c of None \<Rightarrow> True | Some v \<Rightarrow> occurrences w v = 0))
           (columns t))"

text \<open>The characters of a name that upper-casing leaves inside the sanitized alphabet.\<close>

definition upper_stable :: "unicode_db \<Rightarrow> nat \<Rightarrow> bool" where
  "upper_stable U c =
     list_all (\<lambda>d. (isalnum U d \<or> d = 95) \<and> upper_char U d = [d]) (upper_char U c)"

section \<open>Example inputs\<close>

text \<open>
  A character database in which no code point beyond ASCII is alphanumeric or cased.
  The ASCII examples below never consult it.
\<close>

definition ascii_db :: unicode_db where
  "ascii_db = \<lparr>uc_isalnum = (\<lambda>c. False), uc_upper = (\<lambda>c. [c])\<rparr>"

text \<open>
  A character database that agrees with Unicode on U+01F0 (LATIN SMALL LETTER J WITH
  CARON: a letter, whose upper case is the two code points U+004A U+030C) and on U+030C
  (COMBINING CARON: a mark, not alphanumeric, without case).
\<close>

definition caron_db :: unicode_db where
  "caron_db = \<lparr>uc_isalnum = (\<lambda>c. c = 496), uc_upper = (\<lambda>c. if c = 496 then [74, 780] else [c])\<rparr>"

text \<open>\<^verbatim>\<open>Column(name=nm, data_type=dt)\<close> with every other field at its default.\<close>

definition plain_column :: "str \<Rightarrow> str \<Rightarrow> column" where
  "plain_column nm dt =
     \<lparr>column.name = nm, data_type = dt, is_primary_key = False, is_foreign_key = False,
      is_nullable = True, is_unique = False, default_value = None,
      references_table = None, references_column = None, column.description = None\<rparr>"

definition customers_table :: table where
  "customers_table =
     \<lparr>table.name = lit ''customers'',
      columns =
        [(plain_column (lit ''id'') (lit ''integer''))
            \<lparr>is_primary_key := True, is_nullable := False\<rparr>,
         (plain_column (lit ''name'') (lit ''VARCHAR''))\<lparr>is_nullable := False\<rparr>,
         (plain_column (lit ''email'') (lit ''VARCHAR''))\<lparr>is_unique := True\<rparr>],
      description = None\<rparr>"

definition shipments_table :: table where
  "shipments_table =
     \<lparr>table.name = lit ''shipments'',
      columns =
        [(plain_column (lit ''id'') (lit ''INTEGER''))\<lparr>is_primary_key := True\<rparr>,
         (plain_column (lit ''carrier_id'') (lit ''INTEGER''))
            \<lparr>is_foreign_key := True, references_table := Some (lit ''carriers'')\<rparr>,
         (plain_column (lit ''order_id'') (lit ''INTEGER''))
            \<lparr>is_foreign_key := True, references_table := Some (lit ''orders''),
             references_column := Some (lit ''id'')\<rparr>],
      description = None\<rparr>"

text \<open>A table with a column that is itself called AUTO_INCREMENT.\<close>

definition ledger_table :: table where
  "ledger_table =
     \<lparr>table.name = lit ''ledger'',
      columns =
        [(plain_column (lit ''id'') (lit ''INT''))\<lparr>is_primary_key := True\<rparr>,
         plain_column (lit ''AUTO_INCREMENT'') (lit ''INT'')],
      description = None\<rparr>"

definition order_items_table :: table where
  "order_items_table =
     \<lparr>table.name = lit ''order items'',
      columns =
        [(plain_column (lit ''order_id'') (lit ''INT''))\<lparr>is_primary_key := True\<rparr>,
         (plain_column (lit ''quantity'') (lit ''SMALLINT''))
            \<lparr>default_value := Some (lit ''1'')\<rparr>,
         (plain_column (lit ''product_id'') (lit ''INT''))\<lparr>is_primary_key := True\<rparr>],
      description = None\<rparr>"

definition notes_table :: table where
  "notes_table =
     \<lparr>table.name = lit ''notes'',
      columns = [plain_column (lit ''body'') (lit ''TEXT'')],
      description = None\<rparr>"

definition shop_metadata :: metadata where
  "shop_metadata =
     \<lparr>file_id = lit ''test123'',
      tables = [(lit ''customers'', customers_table), (lit ''shipments'', shipments_table)]\<rparr>"

definition smallint_key_column :: column where
  "smallint_key_column =
     (plain_column (lit ''code'') (lit ''smallint''))\<lparr>is_primary_key := True\<rparr>"

section \<open>Facts about strings\<close>

lemma lit_eq_iff [simp]: "lit a = lit b \<longleftrightarrow> a = b"
  unfolding lit_def by (simp add: inj_map_eq_map inj_on_def)

lemma lit_eq_Nil [simp]: "lit a = [] \<longleftrightarrow> a = []"
  by (simp add: lit_def)

lemma str_nat_nonempty: "str_nat n \<noteq> []"
  by (subst str_nat.simps) simp

lemma str_nat_length_ge2: "\<not> n < 10 \<Longrightarrow> 2 \<le> length (str_nat n)"
  using str_nat_nonempty [of "n div 10"]
  by (subst str_nat.simps) (cases "str_nat (n div 10)", auto)

text \<open>Distinct numbers have distinct decimal texts.\<close>

lemma str_nat_inj: "str_nat m = str_nat n \<Longrightarrow> m = n"
proof (induction m arbitrary: n rule: str_nat.induct)
  case (1 m)
  show ?case
  proof (cases "m < 10")
    case True
    show ?thesis
    proof (cases "n < 10")
      case True
      with \<open>m < 10\<close> "1.prems" show ?thesis
        by (simp add: str_nat.simps [of m] str_nat.simps [of n])
    next
      case False
      from \<open>m < 10\<close> have "length (str_nat m) = 1"
        by (simp add: str_nat.simps [of m])
      with str_nat_length_ge2 [OF False] "1.prems" show ?thesis by simp
    qed
  next
    case False
    show ?thesis
    proof (cases "n < 10")
      case True
      from True have "length (str_nat n) = 1"
        by (simp add: str_nat.simps [of n])
      with str_nat_length_ge2 [OF False] "1.prems" show ?thesis by simp
    next
      case nge: False
      from "1.prems" False nge
      have eq: "str_nat (m div 10) @ [48 + m mod 10] = str_nat (n div 10) @ [48 + n mod 10]"
        by (simp add: str_nat.simps [of m] str_nat.simps [of n])
      then have "str_nat (m div 10) = str_nat (n div 10)" and md: "m mod 10 = n mod 10"
        by simp_all
      with "1.IH" [OF False] have "m div 10 = n div 10" by blast
      with md show ?thesis
        by (metis div_mult_mod_eq)
    qed
  qed
qed

lemma foldl_append_concat: "foldl (\<lambda>acc x. acc @ f x) a xs = a @ concat (map f xs)"
  by (induction xs arbitrary: a) simp_all

lemmas eval_defs =
  lit_def nl_def dquote_def ascii_db_def plain_column_def isalnum_def upper_char_def upper_def
  sql_sanitize_name_def erd_sanitize_name_def foreign_keys_def primary_keys_def

section \<open>The loops in closed form\<close>

lemma generate_foreign_keys_loop_eq:
  "generate_foreign_keys_loop U t idx cols acc =
     acc @ map (\<lambda>(i, c). foreign_key_stmt U t i c)
            (filter (\<lambda>(i, c). truthy (references_table c) \<and> truthy (references_column c))
               (enumerate idx cols))"
  by (induction cols arbitrary: idx acc) simp_all

lemma generate_indexes_loop_eq:
  "generate_indexes_loop U t cols acc = acc @ map (index_stmt U t) cols"
  by (induction cols arbitrary: acc) simp_all

lemma generate_relationships_loop_eq:
  "generate_relationships_loop U t cols acc =
     acc @ concat (map (relationship_line U t) (filter (\<lambda>c. truthy (references_table c)) cols))"
  by (induction cols arbitrary: acc) simp_all

section \<open>Foreign-key constraint names\<close>

lemma fk_name_inj: "fk_name U t i = fk_name U t j \<Longrightarrow> i = j"
  by (simp add: fk_name_def str_nat_inj)

lemma distinct_fk_names:
  "distinct (map (\<lambda>(i, c). fk_name U t i) (filter P (enumerate n cols)))"
proof -
  have d: "distinct (map fst (filter P (enumerate n cols)))"
    by (rule distinct_map_filter) simp
  have i: "inj_on (fk_name U t) (set (map fst (filter P (enumerate n cols))))"
    by (rule inj_onI) (rule fk_name_inj)
  have "(\<lambda>(i, c). fk_name U t i) = fk_name U t \<circ> fst"
    by (simp add: fun_eq_iff)
  then have "map (\<lambda>(i, c). fk_name U t i) (filter P (enumerate n cols))
             = map (fk_name U t) (map fst (filter P (enumerate n cols)))"
    by simp
  with d i show ?thesis
    by (simp only: distinct_map)
qed

lemma shipments_fks:
  "generate_foreign_keys ascii_db shipments_table =
     [lit ''ALTER TABLE shipments ADD CONSTRAINT fk_shipments_2 FOREIGN KEY (order_id) REFERENCES orders(id) ON DELETE CASCADE ON UPDATE CASCADE;'']"
  by (simp add: generate_foreign_keys_def shipments_table_def foreign_key_stmt_def fk_name_def
      str_nat.simps eval_defs)

lemma shipments_spec_fks:
  "spec_generate_foreign_keys ascii_db shipments_table =
     [lit ''ALTER TABLE shipments ADD CONSTRAINT fk_shipments_1 FOREIGN KEY (order_id) REFERENCES orders(id) ON DELETE CASCADE ON UPDATE CASCADE;'']"
  by (simp add: spec_generate_foreign_keys_def shipments_table_def foreign_key_stmt_def
      fk_name_def str_nat.simps eval_defs)

text \<open>
  Claim C1, as stated, fails. In \<open>shipments_table\<close> the first foreign-key column
  (\<open>carrier_id\<close>) has no \<open>references_column\<close> and the second (\<open>order_id\<close>) is complete.
  The one statement emitted is named \<open>fk_shipments_2\<close>: the loop index has counted the
  skipped column. An index over the qualifying columns only would give \<open>fk_shipments_1\<close>.
\<close>

theorem foreign_key_index_counts_skipped_columns:
  "generate_foreign_keys ascii_db shipments_table =
     [lit ''ALTER TABLE shipments ADD CONSTRAINT fk_shipments_2 FOREIGN KEY (order_id) REFERENCES orders(id) ON DELETE CASCADE ON UPDATE CASCADE;'']
   \<and> generate_foreign_keys ascii_db shipments_table
       \<noteq> spec_generate_foreign_keys ascii_db shipments_table"
  by (simp add: shipments_fks shipments_spec_fks)

text \<open>
  Claim C1, amended. The statements of a table are those of its foreign-key columns that
  have both references set, in column order, and each is named from the table name and
  the column's 1-based position among all the foreign-key-flagged columns of the table
  (\<open>enumerate 1 (foreign_keys t)\<close>), so an incomplete column leaves a gap in the numbering.
  The names emitted for one table are pairwise distinct.
\<close>

theorem foreign_key_names_positional_and_distinct:
  "generate_foreign_keys U t =
     map (\<lambda>(idx, fk_col). foreign_key_stmt U t idx fk_col)
       (filter (\<lambda>(idx, fk_col).
                  truthy (references_table fk_col) \<and> truthy (references_column fk_col))
          (enumerate 1 (foreign_keys t)))
   \<and> distinct
       (map (\<lambda>(idx, fk_col). fk_name U t idx)
          (filter (\<lambda>(idx, fk_col).
                     truthy (references_table fk_col) \<and> truthy (references_column fk_col))
             (enumerate 1 (foreign_keys t))))"
  by (simp add: generate_foreign_keys_def generate_foreign_keys_loop_eq distinct_fk_names)

theorem foreign_key_names_positional_and_distinct_witness:
  "generate_foreign_keys ascii_db shipments_table =
     [foreign_key_stmt ascii_db shipments_table 2 (columns shipments_table ! 2)]
   \<and> distinct [fk_name ascii_db shipments_table 2]"
proof -
  have f: "filter (\<lambda>(idx, fk_col).
                     truthy (references_table fk_col) \<and> truthy (references_column fk_col))
             (enumerate 1 (foreign_keys shipments_table))
           = [(2, columns shipments_table ! 2)]"
    by (simp add: shipments_table_def plain_column_def foreign_keys_def)
  show ?thesis
    using foreign_key_names_positional_and_distinct [of ascii_db shipments_table]
    unfolding f by simp
qed

section \<open>Incomplete foreign-key references\<close>

lemma generate_foreign_keys_loop_append:
  "generate_foreign_keys_loop U t idx (xs @ ys) acc =
     generate_foreign_keys_loop U t idx xs acc
     @ generate_foreign_keys_loop U t (idx + length xs) ys []"
  by (simp add: generate_foreign_keys_loop_eq enumerate_append_eq)

lemma shipments_indexes:
  "generate_indexes ascii_db shipments_table =
     [lit ''CREATE INDEX idx_shipments_carrier_id ON shipments(carrier_id);'',
      lit ''CREATE INDEX idx_shipments_order_id ON shipments(order_id);'']"
  by (simp add: generate_indexes_def shipments_table_def index_stmt_def eval_defs)

text \<open>
  Claim C2. Let the \<open>i\<close>-th foreign-key-flagged column of a table lack a
  \<open>references_column\<close>. Then the column adds nothing to the ALTER TABLE statements: they
  are what the loop emits for the flagged columns before it, followed by what it emits
  for those after it (the loop index moving on to \<open>i + 2\<close>). The column adds exactly one
  statement to the CREATE INDEX statements, its own, between those of the columns before
  and after it; there is one index statement per flagged column. Both functions return
  plain lists: no branch of the source raises.
\<close>

theorem incomplete_foreign_key_gets_index_only:
  assumes "i < length (foreign_keys t)"
    and "\<not> truthy (references_column (foreign_keys t ! i))"
  shows "generate_foreign_keys U t =
           generate_foreign_keys_loop U t 1 (take i (foreign_keys t)) []
           @ generate_foreign_keys_loop U t (i + 2) (drop (Suc i) (foreign_keys t)) []
         \<and> generate_indexes U t =
             generate_indexes_loop U t (take i (foreign_keys t)) []
             @ [index_stmt U t (foreign_keys t ! i)]
             @ generate_indexes_loop U t (drop (Suc i) (foreign_keys t)) []
         \<and> length (generate_indexes U t) = length (foreign_keys t)"
proof -
  let ?fks = "foreign_keys t"
  from assms(1) have split: "?fks = take i ?fks @ (?fks ! i) # drop (Suc i) ?fks"
    by (simp add: id_take_nth_drop)
  from assms(1) have len: "length (take i ?fks) = i" by simp
  have "generate_foreign_keys U t
        = generate_foreign_keys_loop U t 1 (take i ?fks @ (?fks ! i) # drop (Suc i) ?fks) []"
    unfolding generate_foreign_keys_def using split by simp
  also have "\<dots> = generate_foreign_keys_loop U t 1 (take i ?fks) []
                  @ generate_foreign_keys_loop U t (1 + i) ((?fks ! i) # drop (Suc i) ?fks) []"
    by (simp only: generate_foreign_keys_loop_append len)
  also have "generate_foreign_keys_loop U t (1 + i) ((?fks ! i) # drop (Suc i) ?fks) []
             = generate_foreign_keys_loop U t (i + 2) (drop (Suc i) ?fks) []"
    using assms(2) by simp
  finally have fk: "generate_foreign_keys U t =
           generate_foreign_keys_loop U t 1 (take i ?fks) []
           @ generate_foreign_keys_loop U t (i + 2) (drop (Suc i) ?fks) []" .
  have "generate_indexes U t
        = generate_indexes_loop U t (take i ?fks @ (?fks ! i) # drop (Suc i) ?fks) []"
    unfolding generate_indexes_def using split by simp
  then have ix: "generate_indexes U t =
             generate_indexes_loop U t (take i ?fks) []
             @ [index_stmt U t (?fks ! i)]
             @ generate_indexes_loop U t (drop (Suc i) ?fks) []"
    by (simp add: generate_indexes_loop_eq)
  have ln: "length (generate_indexes U t) = length ?fks"
    by (simp add: generate_indexes_def generate_indexes_loop_eq)
  from fk ix ln show ?thesis by blast
qed

text \<open>
  In \<open>shipments_table\<close> the flagged column \<open>carrier_id\<close> has a \<open>references_table\<close> but no
  \<open>references_column\<close>: its index statement is there.
\<close>

theorem incomplete_foreign_key_gets_index_only_witness:
  "0 < length (foreign_keys shipments_table)
   \<and> \<not> truthy (references_column (foreign_keys shipments_table ! 0))
   \<and> column.name (foreign_keys shipments_table ! 0) = lit ''carrier_id''
   \<and> generate_foreign_keys ascii_db shipments_table =
       generate_foreign_keys_loop ascii_db shipments_table 1
         (take 0 (foreign_keys shipments_table)) []
       @ generate_foreign_keys_loop ascii_db shipments_table (0 + 2)
           (drop (Suc 0) (foreign_keys shipments_table)) []
   \<and> generate_indexes ascii_db shipments_table =
       [lit ''CREATE INDEX idx_shipments_carrier_id ON shipments(carrier_id);'',
        lit ''CREATE INDEX idx_shipments_order_id ON shipments(order_id);'']"
proof -
  have h1: "0 < length (foreign_keys shipments_table)"
    by (simp add: shipments_table_def plain_column_def foreign_keys_def)
  have h2: "\<not> truthy (references_column (foreign_keys shipments_table ! 0))"
    by (simp add: shipments_table_def plain_column_def foreign_keys_def)
  have nm: "column.name (foreign_keys shipments_table ! 0) = lit ''carrier_id''"
    by (simp add: shipments_table_def plain_column_def foreign_keys_def)
  from incomplete_foreign_key_gets_index_only [OF h1 h2, of ascii_db] h1 h2 nm
    shipments_indexes
  show ?thesis by blast
qed

section \<open>Column definition lines\<close>

lemma map_to_mysql_type_range:
  "map_to_mysql_type U x \<in> snd ` set MYSQL_TYPE_MAP \<union> {lit ''VARCHAR(255)''}"
  by (auto simp: map_to_mysql_type_def split: option.splits dest!: map_of_SomeD intro: rev_image_eqI)

lemma join_Cons: "join sep (x # xs) = x @ concat (map (\<lambda>y. sep @ y) xs)"
  by (induction xs arbitrary: x) simp_all

lemma generate_column_definition_eq:
  "generate_column_definition U col =
     column_definition_head U col
     @ concat (map (\<lambda>y. lit '' '' @ y) (drop 2 (column_definition_parts U col)))"
  by (simp add: generate_column_definition_def column_definition_parts_def
      column_definition_head_def join_Cons)

lemma auto_increment_follows_head:
  "auto_increment_follows h (h @ rest) \<longleftrightarrow>
     rest = lit '' AUTO_INCREMENT'' \<or> prefix (lit '' AUTO_INCREMENT '') rest"
  by (simp add: auto_increment_follows_def)

lemma auto_increment_follows_indent:
  "auto_increment_follows (i @ h) (i @ l) = auto_increment_follows h l"
  by (simp add: auto_increment_follows_def)

text \<open>
  None of the other attributes (NOT NULL, UNIQUE, DEFAULT) starts with the word
  AUTO_INCREMENT, so the word follows the type exactly when the source appends it.
\<close>

lemma column_definition_auto_increment:
  "auto_increment_follows (column_definition_head U col) (generate_column_definition U col)
   \<longleftrightarrow> is_primary_key col
       \<and> upper U (data_type col) \<in> {lit ''INTEGER'', lit ''INT'', lit ''BIGINT''}"
  unfolding generate_column_definition_eq auto_increment_follows_head
  by (simp add: column_definition_parts_def lit_def)

lemma create_table_col_defs_eq:
  "create_table_col_defs U t =
     map (\<lambda>col. lit ''    '' @ generate_column_definition U col) (columns t)
     @ (if filter is_primary_key (columns t) = [] then []
        else [lit ''    PRIMARY KEY (''
              @ join (lit '', '')
                  (map (\<lambda>pk. sql_sanitize_name U (column.name pk))
                     (filter is_primary_key (columns t)))
              @ lit '')''])"
  by (simp add: create_table_col_defs_def primary_keys_def Let_def)

lemma create_table_col_defs_nth:
  "j < length (columns t) \<Longrightarrow>
     create_table_col_defs U t ! j = lit ''    '' @ generate_column_definition U (columns t ! j)"
  by (simp add: create_table_col_defs_eq nth_append)

subsection \<open>Counting the word AUTO_INCREMENT in a statement\<close>

lemma prefix_before_separator:
  assumes "c \<notin> set w"
  shows "prefix w (a @ c # b) \<longleftrightarrow> prefix w a"
proof
  assume "prefix w (a @ c # b)"
  then have "prefix w a \<or> (\<exists>us. w = a @ us \<and> prefix us (c # b))"
    by (simp only: prefix_append)
  then show "prefix w a"
  proof
    assume "prefix w a"
    then show ?thesis .
  next
    assume "\<exists>us. w = a @ us \<and> prefix us (c # b)"
    then obtain us where w: "w = a @ us" and p: "prefix us (c # b)" by blast
    show ?thesis
    proof (cases us)
      case Nil
      with w show ?thesis by simp
    next
      case (Cons u us')
      with p have "u = c" by simp
      with w Cons assms show ?thesis by simp
    qed
  qed
next
  assume "prefix w a"
  then show "prefix w (a @ c # b)" by (rule prefix_prefix)
qed

lemma occurrences_separator:
  assumes "c \<notin> set w" and "w \<noteq> []"
  shows "occurrences w (a @ c # b) = occurrences w a + occurrences w b"
proof (induction a)
  case Nil
  from assms have "\<not> prefix w (c # b)"
    by (cases w) simp_all
  then show ?case by simp
next
  case (Cons x a)
  have "prefix w ((x # a) @ c # b) \<longleftrightarrow> prefix w (x # a)"
    using assms(1) by (rule prefix_before_separator)
  with Cons show ?case by simp
qed

lemma occurrences_absent:
  assumes "x \<in> set w" and "x \<notin> set s"
  shows "occurrences w s = 0"
  using assms(2)
proof (induction s)
  case Nil
  show ?case by simp
next
  case (Cons y s)
  have "\<not> prefix w (y # s)"
  proof
    assume "prefix w (y # s)"
    then have "set w \<subseteq> set (y # s)" by (rule set_mono_prefix)
    with assms(1) Cons.prems show False by blast
  qed
  moreover from Cons have "occurrences w s = 0" by simp
  ultimately show ?case by simp
qed

lemma occurrences_separated1:
  assumes "c \<notin> set w" and "w \<noteq> []"
  shows "occurrences w (y @ concat (map (\<lambda>z. c # z) zs))
         = occurrences w y + sum_list (map (occurrences w) zs)"
proof (induction zs arbitrary: y)
  case Nil
  show ?case by simp
next
  case (Cons z zs)
  have "occurrences w (y @ concat (map (\<lambda>z. c # z) (z # zs)))
        = occurrences w (y @ c # (z @ concat (map (\<lambda>z. c # z) zs)))"
    by simp
  also have "\<dots> = occurrences w y + occurrences w (z @ concat (map (\<lambda>z. c # z) zs))"
    using assms by (rule occurrences_separator)
  finally show ?case by (simp add: Cons.IH)
qed

lemma occurrences_separated2:
  assumes "c \<notin> set w" and "d \<notin> set w" and "w \<noteq> []"
  shows "occurrences w (y @ concat (map (\<lambda>z. c # d # z) zs))
         = occurrences w y + sum_list (map (occurrences w) zs)"
proof (induction zs arbitrary: y)
  case Nil
  show ?case by simp
next
  case (Cons z zs)
  have "occurrences w (y @ concat (map (\<lambda>z. c # d # z) (z # zs)))
        = occurrences w (y @ c # ([] @ d # (z @ concat (map (\<lambda>z. c # d # z) zs))))"
    by simp
  also have "\<dots> = occurrences w y
                   + occurrences w ([] @ d # (z @ concat (map (\<lambda>z. c # d # z) zs)))"
    using assms(1,3) by (rule occurrences_separator)
  also have "occurrences w ([] @ d # (z @ concat (map (\<lambda>z. c # d # z) zs)))
             = occurrences w [] + occurrences w (z @ concat (map (\<lambda>z. c # d # z) zs))"
    using assms(2,3) by (rule occurrences_separator)
  finally show ?case by (simp add: Cons.IH)
qed

lemma occurrences_join2:
  assumes "c \<notin> set w" and "d \<notin> set w" and "w \<noteq> []"
  shows "occurrences w (join [c, d] xs) = sum_list (map (occurrences w) xs)"
proof (cases xs)
  case Nil
  then show ?thesis by simp
next
  case (Cons x xs')
  have "join [c, d] (x # xs') = x @ concat (map (\<lambda>z. c # d # z) xs')"
    by (simp add: join_Cons)
  with Cons show ?thesis
    by (simp only: occurrences_separated2 [OF assms] list.map sum_list.Cons)
qed

lemma sum_list_indicator:
  "sum_list (map (\<lambda>x. if P x then 1 else 0) xs) = length (filter P xs)"
  by (induction xs) simp_all

lemma auto_increment_word:
  "lit ''AUTO_INCREMENT'' \<noteq> []"
  "32 \<notin> set (lit ''AUTO_INCREMENT'')" "10 \<notin> set (lit ''AUTO_INCREMENT'')"
  "44 \<notin> set (lit ''AUTO_INCREMENT'')" "40 \<notin> set (lit ''AUTO_INCREMENT'')"
  "41 \<notin> set (lit ''AUTO_INCREMENT'')" "95 \<in> set (lit ''AUTO_INCREMENT'')"
  by (simp_all add: lit_def)

lemma occurrences_auto_increment_self:
  "occurrences (lit ''AUTO_INCREMENT'') (lit ''AUTO_INCREMENT'') = 1"
  by (simp add: lit_def)

lemma occurrences_without_underscore:
  "95 \<notin> set s \<Longrightarrow> occurrences (lit ''AUTO_INCREMENT'') s = 0"
  using auto_increment_word(7) by (rule occurrences_absent)

lemma occurrences_after_space:
  "occurrences (lit ''AUTO_INCREMENT'') (a @ 32 # b)
   = occurrences (lit ''AUTO_INCREMENT'') a + occurrences (lit ''AUTO_INCREMENT'') b"
  using auto_increment_word(2,1) by (rule occurrences_separator)

lemma map_to_mysql_type_no_underscore: "95 \<notin> set (map_to_mysql_type U x)"
  using map_to_mysql_type_range [of U x]
  by (auto simp: MYSQL_TYPE_MAP_def lit_def)

lemma lit_space_append: "lit '' '' @ y = 32 # y"
  by (simp add: lit_def)

lemma occurrences_attributes:
  assumes "case default_value col of None \<Rightarrow> True
           | Some v \<Rightarrow> occurrences (lit ''AUTO_INCREMENT'') v = 0"
  shows "sum_list (map (occurrences (lit ''AUTO_INCREMENT''))
                     (drop 2 (column_definition_parts U col)))
         = (if is_primary_key col
               \<and> upper U (data_type col) \<in> {lit ''INTEGER'', lit ''INT'', lit ''BIGINT''}
            then 1 else 0)"
proof -
  have n: "occurrences (lit ''AUTO_INCREMENT'') (lit ''NOT NULL'') = 0"
    by (rule occurrences_without_underscore) (simp add: lit_def)
  have u: "occurrences (lit ''AUTO_INCREMENT'') (lit ''UNIQUE'') = 0"
    by (rule occurrences_without_underscore) (simp add: lit_def)
  have d: "truthy (default_value col) \<Longrightarrow>
             occurrences (lit ''AUTO_INCREMENT'') (lit ''DEFAULT '' @ the (default_value col)) = 0"
  proof -
    assume "truthy (default_value col)"
    then obtain v where v: "default_value col = Some v" by (cases "default_value col") simp_all
    with assms have z: "occurrences (lit ''AUTO_INCREMENT'') v = 0" by simp
    have "lit ''DEFAULT '' @ v = lit ''DEFAULT'' @ 32 # v" by (simp add: lit_def)
    moreover have "occurrences (lit ''AUTO_INCREMENT'') (lit ''DEFAULT'') = 0"
      by (rule occurrences_without_underscore) (simp add: lit_def)
    ultimately show ?thesis using z v by (simp add: occurrences_after_space)
  qed
  show ?thesis
    by (simp add: column_definition_parts_def n u d occurrences_auto_increment_self)
qed

lemma occurrences_column_definition:
  assumes "occurrences (lit ''AUTO_INCREMENT'') (sql_sanitize_name U (column.name col)) = 0"
    and "case default_value col of None \<Rightarrow> True
           | Some v \<Rightarrow> occurrences (lit ''AUTO_INCREMENT'') v = 0"
  shows "occurrences (lit ''AUTO_INCREMENT'') (lit ''    '' @ generate_column_definition U col)
         = (if is_primary_key col
               \<and> upper U (data_type col) \<in> {lit ''INTEGER'', lit ''INT'', lit ''BIGINT''}
            then 1 else 0)"
proof -
  let ?w = "lit ''AUTO_INCREMENT''"
  let ?n = "sql_sanitize_name U (column.name col)"
  let ?t = "map_type U (data_type col)"
  let ?attrs = "drop 2 (column_definition_parts U col)"
  have g: "generate_column_definition U col
           = (?n @ 32 # ?t) @ concat (map (\<lambda>y. 32 # y) ?attrs)"
    by (simp add: generate_column_definition_eq column_definition_head_def lit_space_append)
  have "occurrences ?w ((?n @ 32 # ?t) @ concat (map (\<lambda>y. 32 # y) ?attrs))
        = occurrences ?w (?n @ 32 # ?t) + sum_list (map (occurrences ?w) ?attrs)"
    using auto_increment_word(2,1) by (rule occurrences_separated1)
  moreover have "occurrences ?w (?n @ 32 # ?t) = 0"
    by (simp add: occurrences_after_space assms(1) map_type_def
        occurrences_without_underscore map_to_mysql_type_no_underscore)
  ultimately have c: "occurrences ?w (generate_column_definition U col)
        = (if is_primary_key col
               \<and> upper U (data_type col) \<in> {lit ''INTEGER'', lit ''INT'', lit ''BIGINT''}
            then 1 else 0)"
    by (simp only: g occurrences_attributes [OF assms(2)] add_0)
  have "lit ''    '' @ generate_column_definition U col
        = [] @ 32 # ([] @ 32 # ([] @ 32 # ([] @ 32 # generate_column_definition U col)))"
    by (simp add: lit_def)
  then show ?thesis
    by (simp only: occurrences_after_space occurrences.simps(1) add_0 c)
qed

lemma occurrences_primary_key_line:
  assumes "\<forall>n\<in>set names. occurrences (lit ''AUTO_INCREMENT'') n = 0"
  shows "occurrences (lit ''AUTO_INCREMENT'')
           (lit ''    PRIMARY KEY ('' @ join (lit '', '') names @ lit '')'') = 0"
proof -
  let ?w = "lit ''AUTO_INCREMENT''"
  have s: "lit ''    PRIMARY KEY ('' @ join (lit '', '') names @ lit '')''
           = lit ''    PRIMARY KEY '' @ 40 # (join [44, 32] names @ 41 # [])"
    by (simp add: lit_def)
  have j: "occurrences ?w (join [44, 32] names) = sum_list (map (occurrences ?w) names)"
    using auto_increment_word(4,2,1) by (rule occurrences_join2)
  have z: "sum_list (map (occurrences ?w) names) = 0"
    using assms by (induction names) simp_all
  have k: "occurrences ?w (lit ''    PRIMARY KEY '') = 0"
    by (rule occurrences_without_underscore) (simp add: lit_def)
  have "occurrences ?w (lit ''    PRIMARY KEY '' @ 40 # (join [44, 32] names @ 41 # []))
        = occurrences ?w (lit ''    PRIMARY KEY '') + occurrences ?w (join [44, 32] names @ 41 # [])"
    using auto_increment_word(5,1) by (rule occurrences_separator)
  also have "occurrences ?w (join [44, 32] names @ 41 # [])
             = occurrences ?w (join [44, 32] names) + occurrences ?w []"
    using auto_increment_word(6,1) by (rule occurrences_separator)
  finally show ?thesis by (simp only: s j z k occurrences.simps(1) add_0)
qed

lemma occurrences_col_defs:
  assumes "names_and_defaults_without (lit ''AUTO_INCREMENT'') U t"
  shows "sum_list (map (occurrences (lit ''AUTO_INCREMENT'')) (create_table_col_defs U t))
         = length (filter (\<lambda>col. is_primary_key col
               \<and> upper U (data_type col) \<in> {lit ''INTEGER'', lit ''INT'', lit ''BIGINT''})
             (columns t))"
proof -
  let ?w = "lit ''AUTO_INCREMENT''"
  let ?P = "\<lambda>col. is_primary_key col
               \<and> upper U (data_type col) \<in> {lit ''INTEGER'', lit ''INT'', lit ''BIGINT''}"
  from assms have h: "\<forall>c\<in>set (columns t).
      occurrences ?w (sql_sanitize_name U (column.name c)) = 0
      \<and> (case default_value c of None \<Rightarrow> True | Some v \<Rightarrow> occurrences ?w v = 0)"
    unfolding names_and_defaults_without_def list_all_iff by (rule conjunct2)
  have lines: "map (occurrences ?w)
                 (map (\<lambda>col. lit ''    '' @ generate_column_definition U col) (columns t))
               = map (\<lambda>col. if ?P col then 1 else 0) (columns t)"
  proof -
    have "\<forall>c\<in>set (columns t).
            occurrences ?w (lit ''    '' @ generate_column_definition U c)
            = (if ?P c then 1 else 0)"
    proof
      fix c
      assume "c \<in> set (columns t)"
      with h have hc: "occurrences ?w (sql_sanitize_name U (column.name c)) = 0
        \<and> (case default_value c of None \<Rightarrow> True | Some v \<Rightarrow> occurrences ?w v = 0)"
        by (rule bspec)
      from hc [THEN conjunct1] hc [THEN conjunct2] show "occurrences ?w (lit ''    '' @ generate_column_definition U c)
            = (if ?P c then 1 else 0)"
        by (rule occurrences_column_definition)
    qed
    then show ?thesis by (simp only: map_map o_def map_eq_conv)
  qed
  have pk: "occurrences ?w
             (lit ''    PRIMARY KEY (''
              @ join (lit '', '')
                  (map (\<lambda>pk. sql_sanitize_name U (column.name pk))
                     (filter is_primary_key (columns t)))
              @ lit '')'') = 0"
  proof (rule occurrences_primary_key_line, rule ballI)
    fix n
    assume "n \<in> set (map (\<lambda>pk. sql_sanitize_name U (column.name pk))
                       (filter is_primary_key (columns t)))"
    then obtain c where cin: "c \<in> set (columns t)"
      and n: "n = sql_sanitize_name U (column.name c)"
      by auto
    from h cin have "occurrences ?w (sql_sanitize_name U (column.name c)) = 0
        \<and> (case default_value c of None \<Rightarrow> True | Some v \<Rightarrow> occurrences ?w v = 0)"
      by (rule bspec)
    then show "occurrences ?w n = 0" unfolding n by (rule conjunct1)
  qed
  show ?thesis
    by (simp add: create_table_col_defs_eq lines pk sum_list_indicator del: map_map)
qed

lemma occurrences_create_table:
  assumes "names_and_defaults_without (lit ''AUTO_INCREMENT'') U t"
  shows "occurrences (lit ''AUTO_INCREMENT'') (generate_create_table U t)
         = length (filter (\<lambda>col. is_primary_key col
               \<and> upper U (data_type col) \<in> {lit ''INTEGER'', lit ''INT'', lit ''BIGINT''})
             (columns t))"
proof -
  let ?w = "lit ''AUTO_INCREMENT''"
  let ?tn = "sql_sanitize_name U (table.name t)"
  let ?J = "join [44, 10] (create_table_col_defs U t)"
  let ?tr = "lit '') ENGINE=InnoDB DEFAULT CHARSET=utf8mb4;''"
  have g: "generate_create_table U t
           = lit ''CREATE TABLE'' @ 32 # (?tn @ 32 # (lit ''('' @ 10 # (?J @ 10 # ?tr)))"
    by (simp add: generate_create_table_def lit_def nl_def)
  have a: "occurrences ?w (lit ''CREATE TABLE'') = 0"
    by (rule occurrences_without_underscore) (simp add: lit_def)
  have b: "occurrences ?w ?tn = 0"
    using assms unfolding names_and_defaults_without_def by (rule conjunct1)
  have c: "occurrences ?w (lit ''('') = 0"
    by (rule occurrences_without_underscore) (simp add: lit_def)
  have d: "occurrences ?w ?tr = 0"
    by (rule occurrences_without_underscore) (simp add: lit_def)
  have j: "occurrences ?w ?J = sum_list (map (occurrences ?w) (create_table_col_defs U t))"
    using auto_increment_word(4,3,1) by (rule occurrences_join2)
  have nlsep: "occurrences ?w (x @ 10 # y) = occurrences ?w x + occurrences ?w y" for x y
    using auto_increment_word(3,1) by (rule occurrences_separator)
  show ?thesis
    by (simp only: g occurrences_after_space nlsep a b c d j
        occurrences_col_defs [OF assms] add_0 add_0_right)
qed

lemma filter_single_position:
  assumes "i < length xs" and "\<forall>j<length xs. P (xs ! j) \<longleftrightarrow> j = i"
  shows "length (filter P xs) = 1"
proof -
  have "filter P (take i xs) = []"
  proof (simp only: filter_empty_conv, rule ballI)
    fix x
    assume "x \<in> set (take i xs)"
    then obtain j where j: "j < length (take i xs)" and x: "x = take i xs ! j"
      by (auto simp: in_set_conv_nth)
    from j assms(1) have "j < i" "j < length xs" by simp_all
    with assms(2) x show "\<not> P x" by simp
  qed
  moreover have "filter P (drop (Suc i) xs) = []"
  proof (simp only: filter_empty_conv, rule ballI)
    fix x
    assume "x \<in> set (drop (Suc i) xs)"
    then obtain j where j: "j < length (drop (Suc i) xs)" and x: "x = drop (Suc i) xs ! j"
      by (auto simp: in_set_conv_nth)
    from j have l: "Suc i + j < length xs" by simp
    from x l have "x = xs ! (Suc i + j)" by simp
    with assms(2) l show "\<not> P x" by simp
  qed
  moreover from assms have "P (xs ! i)" by simp
  moreover from assms(1) have "xs = take i xs @ xs ! i # drop (Suc i) xs"
    by (simp add: id_take_nth_drop)
  ultimately have "filter P xs = [xs ! i]"
    by (metis append_Nil filter.simps(2) filter_append)
  then show ?thesis by simp
qed

lemma ledger_create:
  "generate_create_table ascii_db ledger_table =
     lit ''CREATE TABLE ledger (\<newline>    id INT AUTO_INCREMENT,\<newline>    AUTO_INCREMENT INT,\<newline>    PRIMARY KEY (id)\<newline>) ENGINE=InnoDB DEFAULT CHARSET=utf8mb4;''"
  by (simp add: generate_create_table_def create_table_col_defs_def ledger_table_def
      generate_column_definition_def column_definition_parts_def map_type_def
      map_to_mysql_type_def MYSQL_TYPE_MAP_def eval_defs)

lemma ledger_occurrences:
  "occurrences (lit ''AUTO_INCREMENT'')
     (lit ''CREATE TABLE ledger (\<newline>    id INT AUTO_INCREMENT,\<newline>    AUTO_INCREMENT INT,\<newline>    PRIMARY KEY (id)\<newline>) ENGINE=InnoDB DEFAULT CHARSET=utf8mb4;'') = 2"
  by (simp add: lit_def)

text \<open>
  Claim C3, as stated, fails. \<open>ledger_table\<close> has exactly one primary key of an
  integer-family type, \<open>id\<close>, and a second column whose name is AUTO_INCREMENT. The
  sanitized name is copied into the second column line, so the CREATE TABLE statement
  contains the word twice, once on a line other than the key's.
\<close>

theorem create_table_auto_increment_twice:
  "length (columns ledger_table) = 2
   \<and> is_primary_key (columns ledger_table ! 0)
   \<and> upper ascii_db (data_type (columns ledger_table ! 0)) = lit ''INT''
   \<and> \<not> is_primary_key (columns ledger_table ! 1)
   \<and> generate_create_table ascii_db ledger_table =
       lit ''CREATE TABLE ledger (\<newline>    id INT AUTO_INCREMENT,\<newline>    AUTO_INCREMENT INT,\<newline>    PRIMARY KEY (id)\<newline>) ENGINE=InnoDB DEFAULT CHARSET=utf8mb4;''
   \<and> occurrences (lit ''AUTO_INCREMENT'') (generate_create_table ascii_db ledger_table) = 2
   \<and> occurrences (lit ''AUTO_INCREMENT'') (generate_create_table ascii_db ledger_table) \<noteq> 1"
proof -
  have a: "length (columns ledger_table) = 2" "is_primary_key (columns ledger_table ! 0)"
    "\<not> is_primary_key (columns ledger_table ! 1)"
    by (simp_all add: ledger_table_def plain_column_def)
  have b: "upper ascii_db (data_type (columns ledger_table ! 0)) = lit ''INT''"
    by (simp add: ledger_table_def plain_column_def lit_def upper_def upper_char_def)
  have c: "occurrences (lit ''AUTO_INCREMENT'') (generate_create_table ascii_db ledger_table) = 2"
    by (simp only: ledger_create ledger_occurrences)
  then have d: "occurrences (lit ''AUTO_INCREMENT'') (generate_create_table ascii_db ledger_table) \<noteq> 1"
    by simp
  from a b ledger_create c d show ?thesis by (intro conjI)
qed

text \<open>
  Claim C3, amended. In a column definition line the word AUTO_INCREMENT follows the name
  and the type if and only if the column is a primary key and its abstract type,
  upper-cased, is equal to one of INTEGER, INT, BIGINT (list membership: equality of
  whole strings). The CREATE TABLE statement is its opening line, the joined column
  lines and the trailer. In a table where exactly one column, the \<open>i\<close>-th, is such a key,
  the \<open>i\<close>-th column line is the only one that carries the attribute. When moreover no
  sanitized table or column name and no default value contains the word, the statement
  contains the word exactly once; in general, under that condition, it contains the
  word as many times as the table has such key columns.
\<close>

theorem auto_increment_iff_integer_primary_key:
  "(auto_increment_follows (column_definition_head U col) (generate_column_definition U col)
      \<longleftrightarrow> is_primary_key col
          \<and> upper U (data_type col) \<in> {lit ''INTEGER'', lit ''INT'', lit ''BIGINT''})
   \<and> (i < length (columns t)
        \<and> (\<forall>j<length (columns t).
              (is_primary_key (columns t ! j)
               \<and> upper U (data_type (columns t ! j))
                   \<in> {lit ''INTEGER'', lit ''INT'', lit ''BIGINT''})
              \<longleftrightarrow> j = i)
      \<longrightarrow> (\<forall>j<length (columns t).
              auto_increment_follows (lit ''    '' @ column_definition_head U (columns t ! j))
                (create_table_col_defs U t ! j)
              \<longleftrightarrow> j = i))
   \<and> generate_create_table U t =
       lit ''CREATE TABLE '' @ sql_sanitize_name U (table.name t) @ lit '' ('' @ nl
       @ join (lit '','' @ nl) (create_table_col_defs U t) @ nl
       @ lit '') ENGINE=InnoDB DEFAULT CHARSET=utf8mb4;''
   \<and> (names_and_defaults_without (lit ''AUTO_INCREMENT'') U t
      \<longrightarrow> occurrences (lit ''AUTO_INCREMENT'') (generate_create_table U t)
          = length (filter (\<lambda>col. is_primary_key col
               \<and> upper U (data_type col) \<in> {lit ''INTEGER'', lit ''INT'', lit ''BIGINT''})
             (columns t)))
   \<and> (names_and_defaults_without (lit ''AUTO_INCREMENT'') U t
        \<and> i < length (columns t)
        \<and> (\<forall>j<length (columns t).
              (is_primary_key (columns t ! j)
               \<and> upper U (data_type (columns t ! j))
                   \<in> {lit ''INTEGER'', lit ''INT'', lit ''BIGINT''})
              \<longleftrightarrow> j = i)
      \<longrightarrow> occurrences (lit ''AUTO_INCREMENT'') (generate_create_table U t) = 1)"
proof (intro conjI)
  show "auto_increment_follows (column_definition_head U col) (generate_column_definition U col)
      \<longleftrightarrow> is_primary_key col
          \<and> upper U (data_type col) \<in> {lit ''INTEGER'', lit ''INT'', lit ''BIGINT''}"
    by (rule column_definition_auto_increment)
next
  show "i < length (columns t)
        \<and> (\<forall>j<length (columns t).
              (is_primary_key (columns t ! j)
               \<and> upper U (data_type (columns t ! j))
                   \<in> {lit ''INTEGER'', lit ''INT'', lit ''BIGINT''})
              \<longleftrightarrow> j = i)
      \<longrightarrow> (\<forall>j<length (columns t).
              auto_increment_follows (lit ''    '' @ column_definition_head U (columns t ! j))
                (create_table_col_defs U t ! j)
              \<longleftrightarrow> j = i)"
    by (simp add: column_definition_auto_increment create_table_col_defs_nth
        auto_increment_follows_indent)
next
  show "generate_create_table U t =
       lit ''CREATE TABLE '' @ sql_sanitize_name U (table.name t) @ lit '' ('' @ nl
       @ join (lit '','' @ nl) (create_table_col_defs U t) @ nl
       @ lit '') ENGINE=InnoDB DEFAULT CHARSET=utf8mb4;''"
    by (simp add: generate_create_table_def)
next
  show "names_and_defaults_without (lit ''AUTO_INCREMENT'') U t
      \<longrightarrow> occurrences (lit ''AUTO_INCREMENT'') (generate_create_table U t)
          = length (filter (\<lambda>col. is_primary_key col
               \<and> upper U (data_type col) \<in> {lit ''INTEGER'', lit ''INT'', lit ''BIGINT''})
             (columns t))"
    by (rule impI) (rule occurrences_create_table)
next
  show "names_and_defaults_without (lit ''AUTO_INCREMENT'') U t
        \<and> i < length (columns t)
        \<and> (\<forall>j<length (columns t).
              (is_primary_key (columns t ! j)
               \<and> upper U (data_type (columns t ! j))
                   \<in> {lit ''INTEGER'', lit ''INT'', lit ''BIGINT''})
              \<longleftrightarrow> j = i)
      \<longrightarrow> occurrences (lit ''AUTO_INCREMENT'') (generate_create_table U t) = 1"
  proof (intro impI, elim conjE)
    assume h: "names_and_defaults_without (lit ''AUTO_INCREMENT'') U t"
      and i: "i < length (columns t)"
      and o: "\<forall>j<length (columns t).
              (is_primary_key (columns t ! j)
               \<and> upper U (data_type (columns t ! j))
                   \<in> {lit ''INTEGER'', lit ''INT'', lit ''BIGINT''})
              \<longleftrightarrow> j = i"
    from i o have "length (filter (\<lambda>col. is_primary_key col
               \<and> upper U (data_type col) \<in> {lit ''INTEGER'', lit ''INT'', lit ''BIGINT''})
             (columns t)) = 1"
      by (rule filter_single_position)
    with occurrences_create_table [OF h] show
      "occurrences (lit ''AUTO_INCREMENT'') (generate_create_table U t) = 1"
      by (simp only:)
  qed
qed

lemma customers_without_auto_increment:
  "names_and_defaults_without (lit ''AUTO_INCREMENT'') ascii_db customers_table"
proof -
  have "occurrences (lit ''AUTO_INCREMENT'') (sql_sanitize_name ascii_db (lit ''customers'')) = 0"
    "occurrences (lit ''AUTO_INCREMENT'') (sql_sanitize_name ascii_db (lit ''id'')) = 0"
    "occurrences (lit ''AUTO_INCREMENT'') (sql_sanitize_name ascii_db (lit ''name'')) = 0"
    "occurrences (lit ''AUTO_INCREMENT'') (sql_sanitize_name ascii_db (lit ''email'')) = 0"
    by (rule occurrences_without_underscore, simp add: lit_def sql_sanitize_name_def isalnum_def)+
  then show ?thesis
    by (simp add: names_and_defaults_without_def customers_table_def plain_column_def)
qed

text \<open>
  In \<open>customers_table\<close> only \<open>id\<close> is a primary key; its type is written \<open>integer\<close>, and
  no name or default value contains the word.
\<close>

theorem auto_increment_iff_integer_primary_key_witness:
  "names_and_defaults_without (lit ''AUTO_INCREMENT'') ascii_db customers_table
   \<and> auto_increment_follows
     (lit ''    '' @ column_definition_head ascii_db (columns customers_table ! 0))
     (create_table_col_defs ascii_db customers_table ! 0)
   \<and> \<not> auto_increment_follows
     (lit ''    '' @ column_definition_head ascii_db (columns customers_table ! 1))
     (create_table_col_defs ascii_db customers_table ! 1)
   \<and> \<not> auto_increment_follows
     (lit ''    '' @ column_definition_head ascii_db (columns customers_table ! 2))
     (create_table_col_defs ascii_db customers_table ! 2)
   \<and> create_table_col_defs ascii_db customers_table ! 0
       = lit ''    id INT AUTO_INCREMENT NOT NULL''
   \<and> occurrences (lit ''AUTO_INCREMENT'') (generate_create_table ascii_db customers_table) = 1"
proof -
  have n: "length (columns customers_table) = 3"
    by (simp add: customers_table_def)
  have z: "0 < length (columns customers_table)"
    by (simp add: customers_table_def)
  have h: "\<forall>j<length (columns customers_table).
              (is_primary_key (columns customers_table ! j)
               \<and> upper ascii_db (data_type (columns customers_table ! j))
                   \<in> {lit ''INTEGER'', lit ''INT'', lit ''BIGINT''})
              \<longleftrightarrow> j = 0"
    unfolding n
    by (simp add: customers_table_def eval_defs less_Suc_eq numeral_3_eq_3)
  have l: "create_table_col_defs ascii_db customers_table ! 0
           = lit ''    id INT AUTO_INCREMENT NOT NULL''"
    by (simp add: create_table_col_defs_def customers_table_def
      generate_column_definition_def column_definition_parts_def map_type_def
      map_to_mysql_type_def MYSQL_TYPE_MAP_def eval_defs)
  note w = auto_increment_iff_integer_primary_key [of ascii_db "columns customers_table ! 0" 0 customers_table]
  from w [THEN conjunct2, THEN conjunct1, THEN mp, OF conjI [OF z h]]
  have q: "\<forall>j<length (columns customers_table). auto_increment_follows
               (lit ''    '' @ column_definition_head ascii_db (columns customers_table ! j))
               (create_table_col_defs ascii_db customers_table ! j) \<longleftrightarrow> j = 0" .
  have q0: "auto_increment_follows
     (lit ''    '' @ column_definition_head ascii_db (columns customers_table ! 0))
     (create_table_col_defs ascii_db customers_table ! 0)"
    using q [rule_format, of 0] n by simp
  have q1: "\<not> auto_increment_follows
     (lit ''    '' @ column_definition_head ascii_db (columns customers_table ! 1))
     (create_table_col_defs ascii_db customers_table ! 1)"
    using q [rule_format, of 1] n by simp
  have q2: "\<not> auto_increment_follows
     (lit ''    '' @ column_definition_head ascii_db (columns customers_table ! 2))
     (create_table_col_defs ascii_db customers_table ! 2)"
    using q [rule_format, of 2] n by simp
  from w [THEN conjunct2, THEN conjunct2, THEN conjunct2, THEN conjunct2, THEN mp,
          OF conjI [OF customers_without_auto_increment conjI [OF z h]]]
  have o: "occurrences (lit ''AUTO_INCREMENT'') (generate_create_table ascii_db customers_table) = 1" .
  from customers_without_auto_increment q0 q1 q2 l o show ?thesis by (intro conjI)
qed

section \<open>The primary-key constraint\<close>

lemma prefix_same_separator:
  "c \<notin> set xs \<Longrightarrow> c \<notin> set ys \<Longrightarrow> prefix (ys @ c # zs) (xs @ c # ws) \<Longrightarrow> xs = ys \<and> prefix zs ws"
proof (induction ys arbitrary: xs)
  case Nil
  then show ?case by (cases xs) auto
next
  case (Cons y ys)
  then show ?case by (cases xs) auto
qed

lemma space_not_in_sql_sanitize_name: "32 \<notin> set (sql_sanitize_name U nm)"
  by (auto simp: sql_sanitize_name_def isalnum_def)

lemma map_to_mysql_type_first: "\<exists>c cs. map_to_mysql_type U x = c # cs \<and> c \<noteq> 75"
  using map_to_mysql_type_range [of U x]
  by (auto simp: MYSQL_TYPE_MAP_def lit_def)

lemma column_line_not_primary_key:
  "\<not> prefix (lit ''    PRIMARY KEY ('') (lit ''    '' @ generate_column_definition U col)"
proof
  assume p: "prefix (lit ''    PRIMARY KEY ('') (lit ''    '' @ generate_column_definition U col)"
  obtain c cs where ty: "map_to_mysql_type U (data_type col) = c # cs" and c: "c \<noteq> 75"
    using map_to_mysql_type_first by blast
  let ?n = "sql_sanitize_name U (column.name col)"
  let ?rest = "concat (map (\<lambda>y. lit '' '' @ y) (drop 2 (column_definition_parts U col)))"
  have g: "generate_column_definition U col = ?n @ 32 # (c # cs @ ?rest)"
    by (simp add: generate_column_definition_eq column_definition_head_def map_type_def ty lit_def)
  have l: "lit ''    PRIMARY KEY ('' = lit ''    '' @ (lit ''PRIMARY'' @ 32 # lit ''KEY ('')"
    by (simp add: lit_def)
  from p have "prefix (lit ''PRIMARY'' @ 32 # lit ''KEY ('') (?n @ 32 # (c # cs @ ?rest))"
    unfolding l g by simp
  moreover have "32 \<notin> set (lit ''PRIMARY'')" by (simp add: lit_def)
  ultimately have "prefix (lit ''KEY ('') (c # cs @ ?rest)"
    using prefix_same_separator [OF space_not_in_sql_sanitize_name] by blast
  with c show False by (simp add: lit_def)
qed

lemma filter_no_match: "(\<And>x. x \<in> set xs \<Longrightarrow> \<not> P x) \<Longrightarrow> filter P xs = []"
  by (induction xs) auto

text \<open>
  Claim C4. The column lines of a CREATE TABLE statement are one line per column, in
  declaration order, followed, when the table has a primary-key column, by one line
  \<open>PRIMARY KEY (...)\<close> that lists the sanitized names of all primary-key columns in
  declaration order. Exactly one of the lines is such a constraint line then, and none
  when the table has no primary-key column: no column definition line can begin with the
  text \<open>PRIMARY KEY (\<close>. The lines are joined inside the one statement, between its
  opening line and its trailer.
\<close>

theorem primary_key_constraint_once_in_column_order:
  "create_table_col_defs U t =
     map (\<lambda>col. lit ''    '' @ generate_column_definition U col) (columns t)
     @ (if filter is_primary_key (columns t) = [] then []
        else [lit ''    PRIMARY KEY (''
              @ join (lit '', '')
                  (map (\<lambda>pk. sql_sanitize_name U (column.name pk))
                     (filter is_primary_key (columns t)))
              @ lit '')''])
   \<and> length (filter (prefix (lit ''    PRIMARY KEY ('')) (create_table_col_defs U t))
       = (if filter is_primary_key (columns t) = [] then 0 else 1)
   \<and> generate_create_table U t =
       lit ''CREATE TABLE '' @ sql_sanitize_name U (table.name t) @ lit '' ('' @ nl
       @ join (lit '','' @ nl) (create_table_col_defs U t) @ nl
       @ lit '') ENGINE=InnoDB DEFAULT CHARSET=utf8mb4;''"
proof -
  have "filter (prefix (lit ''    PRIMARY KEY (''))
          (map (\<lambda>col. lit ''    '' @ generate_column_definition U col) (columns t)) = []"
    by (rule filter_no_match) (auto simp: column_line_not_primary_key)
  then have "length (filter (prefix (lit ''    PRIMARY KEY ('')) (create_table_col_defs U t))
       = (if filter is_primary_key (columns t) = [] then 0 else 1)"
    by (simp add: create_table_col_defs_eq)
  moreover have "generate_create_table U t =
       lit ''CREATE TABLE '' @ sql_sanitize_name U (table.name t) @ lit '' ('' @ nl
       @ join (lit '','' @ nl) (create_table_col_defs U t) @ nl
       @ lit '') ENGINE=InnoDB DEFAULT CHARSET=utf8mb4;''"
    by (simp add: generate_create_table_def)
  ultimately show ?thesis
    using create_table_col_defs_eq [of U t] by blast
qed

lemma order_items_create:
  "generate_create_table ascii_db order_items_table =
     lit ''CREATE TABLE order_items (\<newline>    order_id INT AUTO_INCREMENT,\<newline>    quantity SMALLINT DEFAULT 1,\<newline>    product_id INT AUTO_INCREMENT,\<newline>    PRIMARY KEY (order_id, product_id)\<newline>) ENGINE=InnoDB DEFAULT CHARSET=utf8mb4;''"
  by (simp add: generate_create_table_def create_table_col_defs_def order_items_table_def
      generate_column_definition_def column_definition_parts_def map_type_def
      map_to_mysql_type_def MYSQL_TYPE_MAP_def eval_defs)

lemma notes_create:
  "generate_create_table ascii_db notes_table =
     lit ''CREATE TABLE notes (\<newline>    body TEXT\<newline>) ENGINE=InnoDB DEFAULT CHARSET=utf8mb4;''"
  by (simp add: generate_create_table_def create_table_col_defs_def notes_table_def
      generate_column_definition_def column_definition_parts_def map_type_def
      map_to_mysql_type_def MYSQL_TYPE_MAP_def eval_defs)

text \<open>
  \<open>order_items_table\<close> has the primary-key columns \<open>order_id\<close> and \<open>product_id\<close>, with a
  plain column between them; \<open>notes_table\<close> has no primary key.
\<close>

theorem primary_key_constraint_once_in_column_order_witness:
  "length (filter (prefix (lit ''    PRIMARY KEY (''))
             (create_table_col_defs ascii_db order_items_table)) = 1
   \<and> create_table_col_defs ascii_db order_items_table ! 3
       = lit ''    PRIMARY KEY (order_id, product_id)''
   \<and> length (filter (prefix (lit ''    PRIMARY KEY (''))
             (create_table_col_defs ascii_db notes_table)) = 0
   \<and> generate_create_table ascii_db order_items_table =
     lit ''CREATE TABLE order_items (\<newline>    order_id INT AUTO_INCREMENT,\<newline>    quantity SMALLINT DEFAULT 1,\<newline>    product_id INT AUTO_INCREMENT,\<newline>    PRIMARY KEY (order_id, product_id)\<newline>) ENGINE=InnoDB DEFAULT CHARSET=utf8mb4;''"
proof -
  have a: "filter is_primary_key (columns order_items_table)
           = [columns order_items_table ! 0, columns order_items_table ! 2]"
    by (simp add: order_items_table_def plain_column_def)
  have b: "filter is_primary_key (columns notes_table) = []"
    by (simp add: notes_table_def plain_column_def)
  have n: "length (columns order_items_table) = 3"
    by (simp add: order_items_table_def)
  note w = primary_key_constraint_once_in_column_order [of ascii_db order_items_table] primary_key_constraint_once_in_column_order [of ascii_db notes_table]
  from w(1) [THEN conjunct1] have "create_table_col_defs ascii_db order_items_table ! 3
       = lit ''    PRIMARY KEY ('' @ join (lit '', '')
           (map (\<lambda>pk. sql_sanitize_name ascii_db (column.name pk))
              [columns order_items_table ! 0, columns order_items_table ! 2]) @ lit '')''"
    by (simp add: a nth_append n)
  also have "\<dots> = lit ''    PRIMARY KEY (order_id, product_id)''"
    by (simp add: order_items_table_def eval_defs)
  finally have c: "create_table_col_defs ascii_db order_items_table ! 3
       = lit ''    PRIMARY KEY (order_id, product_id)''" .
  have p1: "length (filter (prefix (lit ''    PRIMARY KEY (''))
             (create_table_col_defs ascii_db order_items_table)) = 1"
    using w(1) [THEN conjunct2, THEN conjunct1] unfolding a by simp
  have p0: "length (filter (prefix (lit ''    PRIMARY KEY (''))
             (create_table_col_defs ascii_db notes_table)) = 0"
    using w(2) [THEN conjunct2, THEN conjunct1] unfolding b by simp
  from p1 c p0 order_items_create show ?thesis by blast
qed

section \<open>Layout of the diagram source\<close>

lemma foldl_append_concat_pair:
  "foldl (\<lambda>acc (k, v). acc @ f v) a xs = a @ concat (map (\<lambda>(k, v). f v) xs)"
  by (induction xs arbitrary: a) (simp_all add: case_prod_beta)

lemma generate_entity_eq:
  "generate_entity U t =
     lit ''    '' @ erd_sanitize_name U (table.name t) @ lit '' {'' @ nl
     @ concat (map (\<lambda>col. lit ''        '' @ generate_column_line U col @ nl) (columns t))
     @ lit ''    }'' @ nl @ nl"
  by (simp add: generate_entity_def Let_def foldl_append_concat)

lemma generate_relationships_eq:
  "generate_relationships U t =
     concat (map (relationship_line U t)
               (filter (\<lambda>c. truthy (references_table c)) (foreign_keys t)))"
  by (simp add: generate_relationships_def generate_relationships_loop_eq)

lemma concat_map_pair_snd: "concat (map (\<lambda>(k, v). f v) xs) = concat (map f (map snd xs))"
  by (induction xs) (simp_all add: case_prod_beta)

lemma generate_mermaid_eq:
  "generate_mermaid U m =
     lit ''erDiagram'' @ nl @ nl
     @ concat (map (generate_entity U) (map snd (tables m)))
     @ concat (map (generate_relationships U) (map snd (tables m)))"
  by (simp add: generate_mermaid_def Let_def foldl_append_concat_pair concat_map_pair_snd)

text \<open>
  Claim C5. The diagram source is the header, then the entity blocks of all tables in
  the model's table order, then all relationship lines: every entity block precedes every
  relationship line. An entity block holds one line per column, in declaration order.
  There is one relationship line for each foreign-key-flagged column whose
  \<open>references_table\<close> is set (truthy), whatever its \<open>references_column\<close>: their number is
  the number of such columns over all tables.
\<close>

theorem erd_entities_then_relationships:
  "generate_mermaid U m =
     lit ''erDiagram'' @ nl @ nl
     @ concat (map (generate_entity U) (map snd (tables m)))
     @ concat (concat (map (\<lambda>t. map (relationship_line U t)
                                 (filter (\<lambda>c. truthy (references_table c)) (foreign_keys t)))
                         (map snd (tables m))))
   \<and> generate_entity U t =
       lit ''    '' @ erd_sanitize_name U (table.name t) @ lit '' {'' @ nl
       @ concat (map (\<lambda>col. lit ''        '' @ generate_column_line U col @ nl) (columns t))
       @ lit ''    }'' @ nl @ nl
   \<and> length (concat (map (\<lambda>t. map (relationship_line U t)
                                 (filter (\<lambda>c. truthy (references_table c)) (foreign_keys t)))
                         (map snd (tables m))))
       = sum_list (map (\<lambda>t. length (filter (\<lambda>c. is_foreign_key c \<and> truthy (references_table c))
                                       (columns t)))
                     (map snd (tables m)))"
proof -
  have r: "concat (map (generate_relationships U) ts)
        = concat (concat (map (\<lambda>t. map (relationship_line U t)
                                 (filter (\<lambda>c. truthy (references_table c)) (foreign_keys t))) ts))"
    for ts
    by (induction ts) (simp_all add: generate_relationships_eq)
  have l: "length (concat (map (\<lambda>t. map (relationship_line U t)
                                 (filter (\<lambda>c. truthy (references_table c)) (foreign_keys t))) ts))
       = sum_list (map (\<lambda>t. length (filter (\<lambda>c. is_foreign_key c \<and> truthy (references_table c))
                                       (columns t))) ts)" for ts
    by (induction ts) (simp_all add: foreign_keys_def conj_commute)
  show ?thesis
    unfolding generate_mermaid_eq r l using generate_entity_eq [of U t] by blast
qed

lemma shop_relationships:
  "concat (map (\<lambda>t. map (relationship_line ascii_db t)
                        (filter (\<lambda>c. truthy (references_table c)) (foreign_keys t)))
             (map snd (tables shop_metadata)))
   = [lit ''    CARRIERS ||--o{ SHIPMENTS : '' @ dquote @ lit ''FK, ON DELETE CASCADE'' @ dquote @ nl,
      lit ''    ORDERS ||--o{ SHIPMENTS : '' @ dquote @ lit ''FK, ON DELETE CASCADE'' @ dquote @ nl]"
  by (simp add: shop_metadata_def customers_table_def shipments_table_def relationship_line_def
      eval_defs)

text \<open>
  In \<open>shop_metadata\<close> the table \<open>shipments\<close> has two flagged columns with a
  \<open>references_table\<close>, one of them without \<open>references_column\<close>: two relationship lines.
\<close>

theorem erd_entities_then_relationships_witness:
  "generate_mermaid ascii_db shop_metadata =
     lit ''erDiagram'' @ nl @ nl
     @ concat [generate_entity ascii_db customers_table, generate_entity ascii_db shipments_table]
     @ concat
         [lit ''    CARRIERS ||--o{ SHIPMENTS : '' @ dquote @ lit ''FK, ON DELETE CASCADE'' @ dquote @ nl,
          lit ''    ORDERS ||--o{ SHIPMENTS : '' @ dquote @ lit ''FK, ON DELETE CASCADE'' @ dquote @ nl]
   \<and> sum_list (map (\<lambda>t. length (filter (\<lambda>c. is_foreign_key c \<and> truthy (references_table c))
                                       (columns t)))
                     (map snd (tables shop_metadata))) = 2"
proof -
  note w = erd_entities_then_relationships [of ascii_db shop_metadata customers_table]
  have t: "map snd (tables shop_metadata) = [customers_table, shipments_table]"
    by (simp add: shop_metadata_def)
  from w [THEN conjunct1] have a: "generate_mermaid ascii_db shop_metadata =
     lit ''erDiagram'' @ nl @ nl
     @ concat [generate_entity ascii_db customers_table, generate_entity ascii_db shipments_table]
     @ concat
         [lit ''    CARRIERS ||--o{ SHIPMENTS : '' @ dquote @ lit ''FK, ON DELETE CASCADE'' @ dquote @ nl,
          lit ''    ORDERS ||--o{ SHIPMENTS : '' @ dquote @ lit ''FK, ON DELETE CASCADE'' @ dquote @ nl]"
    unfolding shop_relationships unfolding t by simp
  from w [THEN conjunct2, THEN conjunct2] have b: "sum_list (map (\<lambda>t. length (filter (\<lambda>c. is_foreign_key c \<and> truthy (references_table c))
                                       (columns t)))
                     (map snd (tables shop_metadata))) = 2"
    unfolding shop_relationships by simp
  from a b show ?thesis by blast
qed

section \<open>The type mapper\<close>

lemma MYSQL_TYPE_MAP_distinct_keys: "distinct (map fst MYSQL_TYPE_MAP)"
  by (simp add: MYSQL_TYPE_MAP_def)

lemma upper_char_ascii_idem:
  "c < 128 \<Longrightarrow> \<exists>d. upper_char U c = [d] \<and> d < 128 \<and> upper_char U d = [d]
      \<and> (isalnum U c \<longrightarrow> isalnum U d)"
  by (auto simp: upper_char_def isalnum_def)

lemma upper_ascii_idem: "\<forall>c\<in>set x. c < 128 \<Longrightarrow> upper U (upper U x) = upper U x"
proof (induction x)
  case Nil
  then show ?case by (simp add: upper_def)
next
  case (Cons c x)
  then obtain d where "upper_char U c = [d]" "upper_char U d = [d]"
    using upper_char_ascii_idem [of c U] by auto
  with Cons show ?case by (simp add: upper_def)
qed

text \<open>
  Claim C6. \<open>map_to_mysql_type\<close> is a total function of its argument (it has no failing
  branch: the lookup has a default). Its result depends on the argument only through the
  upper-cased argument, so two spellings that differ in case give the same type; for a
  recognized type (the upper-cased argument is a key of the table) the result is the
  table's entry, for every other argument it is the fallback \<open>VARCHAR(255)\<close>. On ASCII
  arguments upper-casing the argument first changes nothing.
\<close>

theorem type_mapper_case_insensitive_with_fallback:
  "(upper U x = upper U y \<longrightarrow> map_to_mysql_type U x = map_to_mysql_type U y)
   \<and> ((k, v) \<in> set MYSQL_TYPE_MAP \<and> upper U x = k \<longrightarrow> map_to_mysql_type U x = v)
   \<and> (upper U x \<notin> fst ` set MYSQL_TYPE_MAP \<longrightarrow> map_to_mysql_type U x = lit ''VARCHAR(255)'')
   \<and> ((\<forall>c\<in>set x. c < 128) \<longrightarrow> map_to_mysql_type U (upper U x) = map_to_mysql_type U x)"
proof -
  have a: "upper U x = upper U y \<longrightarrow> map_to_mysql_type U x = map_to_mysql_type U y"
    by (simp add: map_to_mysql_type_def)
  have b: "(k, v) \<in> set MYSQL_TYPE_MAP \<and> upper U x = k \<longrightarrow> map_to_mysql_type U x = v"
    using MYSQL_TYPE_MAP_distinct_keys by (auto simp: map_to_mysql_type_def)
  have c: "upper U x \<notin> fst ` set MYSQL_TYPE_MAP \<longrightarrow> map_to_mysql_type U x = lit ''VARCHAR(255)''"
    by (auto simp: map_to_mysql_type_def map_of_eq_None_iff [symmetric] simp del: map_of_eq_None_iff)
  have d: "(\<forall>c\<in>set x. c < 128) \<longrightarrow> map_to_mysql_type U (upper U x) = map_to_mysql_type U x"
    by (simp add: map_to_mysql_type_def upper_ascii_idem)
  from a b c d show ?thesis by blast
qed

lemma upper_ascii_examples:
  "upper ascii_db (lit ''varchar'') = lit ''VARCHAR''"
  "upper ascii_db (lit ''Decimal'') = lit ''DECIMAL''"
  "upper ascii_db (lit ''geometry'') = lit ''GEOMETRY''"
  by (simp_all add: eval_defs)

theorem type_mapper_case_insensitive_with_fallback_witness:
  "map_to_mysql_type ascii_db (lit ''varchar'') = map_to_mysql_type ascii_db (lit ''VARCHAR'')
   \<and> map_to_mysql_type ascii_db (lit ''Decimal'') = lit ''DECIMAL(18,2)''
   \<and> map_to_mysql_type ascii_db (lit ''geometry'') = lit ''VARCHAR(255)''
   \<and> map_to_mysql_type ascii_db (upper ascii_db (lit ''varchar''))
       = map_to_mysql_type ascii_db (lit ''varchar'')"
proof -
  have u: "upper ascii_db (lit ''varchar'') = upper ascii_db (lit ''VARCHAR'')"
    by (simp add: eval_defs)
  have m: "(lit ''DECIMAL'', lit ''DECIMAL(18,2)'') \<in> set MYSQL_TYPE_MAP"
    by (simp add: MYSQL_TYPE_MAP_def)
  have n: "upper ascii_db (lit ''geometry'') \<notin> fst ` set MYSQL_TYPE_MAP"
    by (simp add: upper_ascii_examples MYSQL_TYPE_MAP_def)
  have asc: "\<forall>c\<in>set (lit ''varchar''). c < 128"
    by (simp add: lit_def)
  from type_mapper_case_insensitive_with_fallback [of ascii_db "lit ''varchar''" "lit ''VARCHAR''", THEN conjunct1] u
    type_mapper_case_insensitive_with_fallback [of ascii_db "lit ''Decimal''" _ "lit ''DECIMAL''" "lit ''DECIMAL(18,2)''",
        THEN conjunct2, THEN conjunct1] m upper_ascii_examples(2)
    type_mapper_case_insensitive_with_fallback [of ascii_db "lit ''geometry''", THEN conjunct2, THEN conjunct2, THEN conjunct1] n
    type_mapper_case_insensitive_with_fallback [of ascii_db "lit ''varchar''", THEN conjunct2, THEN conjunct2, THEN conjunct2] asc
  show ?thesis by blast
qed

section \<open>The type token of a diagram line\<close>

lemma str_replace_Cons:
  "str_replace old new (c # s) = (if c = old then new else [c]) @ str_replace old new s"
  by (simp add: str_replace_def)

lemma str_replace_Nil: "str_replace old new [] = []"
  by (simp add: str_replace_def)

lemma str_replace_append:
  "str_replace old new (xs @ ys) = str_replace old new xs @ str_replace old new ys"
  by (simp add: str_replace_def)

lemma mysql_type_clean_Nil: "mysql_type_clean [] = []"
  by (simp add: mysql_type_clean_def str_replace_Nil)

lemma mysql_type_clean_Cons:
  "mysql_type_clean (c # s) =
     (if c = 40 \<or> c = 44 then [95] else if c = 41 then [] else [c]) @ mysql_type_clean s"
  by (simp add: mysql_type_clean_def str_replace_Cons str_replace_append str_replace_Nil lit_def)

lemma mysql_type_clean_eq:
  "mysql_type_clean s =
     concat (map (\<lambda>c. if c = 40 \<or> c = 44 then [95] else if c = 41 then [] else [c]) s)"
  by (induction s) (simp_all add: mysql_type_clean_Nil mysql_type_clean_Cons)

lemma mysql_type_clean_set:
  "set (mysql_type_clean s) \<subseteq> (set s - {40, 41, 44}) \<union> {95}"
  by (induction s) (auto simp: mysql_type_clean_Nil mysql_type_clean_Cons)

lemma map_to_mysql_type_no_space: "32 \<notin> set (map_to_mysql_type U x)"
  using map_to_mysql_type_range [of U x]
  by (auto simp: MYSQL_TYPE_MAP_def lit_def)

lemma generate_column_line_prefix:
  "prefix (mysql_type_clean (map_to_mysql_type U (data_type col)) @ lit '' '')
     (generate_column_line U col)"
  by (simp add: generate_column_line_def Let_def)

text \<open>
  Claim C7, amended. A column line of the diagram begins with its type token followed by
  a space. The token is the Type Mapper's dialect type in which every opening
  parenthesis and every comma is replaced by an underscore and every closing parenthesis
  is removed. It contains no parenthesis, no comma and no space.
\<close>

theorem erd_type_token_closing_parenthesis_removed:
  "prefix (mysql_type_clean (map_to_mysql_type U (data_type col)) @ lit '' '')
     (generate_column_line U col)
   \<and> mysql_type_clean s =
       concat (map (\<lambda>c. if c = 40 \<or> c = 44 then [95] else if c = 41 then [] else [c]) s)
   \<and> 40 \<notin> set (mysql_type_clean s) \<and> 41 \<notin> set (mysql_type_clean s)
   \<and> 44 \<notin> set (mysql_type_clean s)
   \<and> 32 \<notin> set (mysql_type_clean (map_to_mysql_type U (data_type col)))"
proof -
  have "32 \<notin> set (mysql_type_clean (map_to_mysql_type U (data_type col)))"
    using mysql_type_clean_set [of "map_to_mysql_type U (data_type col)"]
      map_to_mysql_type_no_space [of U "data_type col"] by auto
  moreover have "40 \<notin> set (mysql_type_clean s)" "41 \<notin> set (mysql_type_clean s)"
      "44 \<notin> set (mysql_type_clean s)"
    using mysql_type_clean_set [of s] by auto
  ultimately show ?thesis
    using generate_column_line_prefix [of U col] mysql_type_clean_eq [of s] by blast
qed

lemma varchar_column_line:
  "generate_column_line ascii_db (columns customers_table ! 1)
   = lit ''VARCHAR_255 NAME '' @ dquote @ lit ''NOT NULL'' @ dquote"
  by (simp add: generate_column_line_def column_line_constraints_def customers_table_def
      mysql_type_clean_def str_replace_def map_to_mysql_type_def MYSQL_TYPE_MAP_def eval_defs)

lemma varchar_clean:
  "mysql_type_clean (map_to_mysql_type ascii_db (lit ''VARCHAR'')) = lit ''VARCHAR_255''"
  by (simp add: mysql_type_clean_def str_replace_def map_to_mysql_type_def MYSQL_TYPE_MAP_def
      eval_defs)

lemma varchar_spec_token:
  "spec_type_token (map_to_mysql_type ascii_db (lit ''VARCHAR'')) = lit ''VARCHAR_255_''"
  by (simp add: spec_type_token_def map_to_mysql_type_def MYSQL_TYPE_MAP_def eval_defs)

text \<open>
  Claim C7, as stated, fails. The second column of \<open>customers_table\<close> has the type
  \<open>VARCHAR\<close>, which maps to \<open>VARCHAR(255)\<close>. With both parentheses replaced by
  underscores the token would be \<open>VARCHAR_255_\<close>; the line begins with \<open>VARCHAR_255\<close>
  and a space: the source removes the closing parenthesis.
\<close>

theorem erd_type_token_closing_parenthesis_not_underscore:
  "data_type (columns customers_table ! 1) = lit ''VARCHAR''
   \<and> generate_column_line ascii_db (columns customers_table ! 1)
       = lit ''VARCHAR_255 NAME '' @ dquote @ lit ''NOT NULL'' @ dquote
   \<and> spec_type_token (map_to_mysql_type ascii_db (lit ''VARCHAR'')) = lit ''VARCHAR_255_''
   \<and> \<not> prefix (spec_type_token (map_to_mysql_type ascii_db (lit ''VARCHAR'')) @ lit '' '')
         (generate_column_line ascii_db (columns customers_table ! 1))"
proof -
  have "data_type (columns customers_table ! 1) = lit ''VARCHAR''"
    by (simp add: customers_table_def plain_column_def)
  moreover have "\<not> prefix (lit ''VARCHAR_255_'' @ lit '' '')
         (lit ''VARCHAR_255 NAME '' @ dquote @ lit ''NOT NULL'' @ dquote)"
    by (simp add: lit_def dquote_def)
  ultimately show ?thesis
    by (simp only: varchar_column_line varchar_spec_token) simp
qed

theorem erd_type_token_closing_parenthesis_removed_witness:
  "prefix (lit ''VARCHAR_255'' @ lit '' '') (generate_column_line ascii_db (columns customers_table ! 1))
   \<and> mysql_type_clean (lit ''DECIMAL(18,2)'') = lit ''DECIMAL_18_2''"
proof -
  have d: "data_type (columns customers_table ! 1) = lit ''VARCHAR''"
    by (simp add: customers_table_def plain_column_def)
  have e: "concat (map (\<lambda>c. if c = 40 \<or> c = 44 then [95] else if c = 41 then [] else [c])
             (lit ''DECIMAL(18,2)'')) = lit ''DECIMAL_18_2''"
    by (simp add: lit_def)
  from erd_type_token_closing_parenthesis_removed [of ascii_db "columns customers_table ! 1" "lit ''DECIMAL(18,2)''"]
  show ?thesis unfolding d varchar_clean e by blast
qed

section \<open>Idempotence of name sanitization\<close>

lemma sql_sanitize_name_idem:
  "sql_sanitize_name U (sql_sanitize_name U x) = sql_sanitize_name U x"
  by (induction x) (simp_all add: sql_sanitize_name_def)

lemma erd_sanitize_name_Nil: "erd_sanitize_name U [] = []"
  by (simp add: erd_sanitize_name_def upper_def)

lemma erd_sanitize_name_Cons:
  "erd_sanitize_name U (c # x) =
     upper_char U (if isalnum U c \<or> c = 95 then c else 95) @ erd_sanitize_name U x"
  by (simp add: erd_sanitize_name_def upper_def)


lemma erd_sanitize_name_fixed:
  "\<forall>d\<in>set y. (isalnum U d \<or> d = 95) \<and> upper_char U d = [d] \<Longrightarrow> erd_sanitize_name U y = y"
proof (induction y)
  case Nil
  show ?case by (rule erd_sanitize_name_Nil)
next
  case (Cons d y)
  then have a: "isalnum U d \<or> d = 95" and b: "upper_char U d = [d]"
    and c: "erd_sanitize_name U y = y"
    by simp_all
  from a have "(if isalnum U d \<or> d = 95 then d else 95) = d" by simp
  with b c show ?case by (simp only: erd_sanitize_name_Cons) simp
qed

lemma upper_stable_underscore: "upper_stable U 95"
  by (simp add: upper_stable_def upper_char_def)


lemma upper_stable_ascii:
  assumes "c < 128" and "isalnum U c"
  shows "upper_stable U c"
proof (cases "97 \<le> c \<and> c \<le> 122")
  case True
  then have u: "upper_char U c = [c - 32]"
    using assms(1) by (simp add: upper_char_def)
  from True have r: "65 \<le> c - 32" "c - 32 \<le> 90" "c - 32 < 128" "\<not> 97 \<le> c - 32"
    by arith+
  from r have "isalnum U (c - 32)" by (simp add: isalnum_def)
  moreover from r have "upper_char U (c - 32) = [c - 32]" by (simp add: upper_char_def)
  ultimately show ?thesis by (simp add: upper_stable_def u)
next
  case False
  then have "(if 97 \<le> c \<and> c \<le> 122 then [c - 32] else [c]) = [c]"
    by (simp only: if_False)
  with assms(1) have u: "upper_char U c = [c]"
    by (simp only: upper_char_def if_True)
  with assms(2) show ?thesis by (simp add: upper_stable_def)
qed

lemma upper_stable_kept:
  assumes "isalnum U c \<longrightarrow> upper_stable U c"
  shows "upper_stable U (if isalnum U c \<or> c = 95 then c else 95)"
proof (cases "isalnum U c")
  case True
  with assms show ?thesis by (simp only: simp_thms if_True)
next
  case False
  have "(if isalnum U c \<or> c = 95 then c else 95) = 95"
    by (cases "c = 95") (simp_all only: False simp_thms if_True if_False)
  then show ?thesis by (simp only: upper_stable_underscore)
qed

lemma upper_stable_chars:
  "upper_stable U k \<Longrightarrow> d \<in> set (upper_char U k) \<Longrightarrow>
     (isalnum U d \<or> d = 95) \<and> upper_char U d = [d]"
  unfolding upper_stable_def list_all_iff by (erule bspec)

lemma erd_sanitize_name_chars:
  assumes "\<forall>c\<in>set x. isalnum U c \<longrightarrow> upper_stable U c"
    and "d \<in> set (erd_sanitize_name U x)"
  shows "(isalnum U d \<or> d = 95) \<and> upper_char U d = [d]"
  using assms
proof (induction x)
  case Nil
  then show ?case by (simp only: erd_sanitize_name_Nil list.set empty_iff)
next
  case (Cons c x)
  let ?k = "if isalnum U c \<or> c = 95 then c else 95"
  have c: "isalnum U c \<longrightarrow> upper_stable U c"
    using Cons.prems(1) by (rule bspec) (rule list.set_intros(1))
  have x: "\<forall>c\<in>set x. isalnum U c \<longrightarrow> upper_stable U c"
  proof
    fix e
    assume "e \<in> set x"
    then have "e \<in> set (c # x)" by (rule list.set_intros(2))
    with Cons.prems(1) show "isalnum U e \<longrightarrow> upper_stable U e" by (rule bspec)
  qed
  from Cons.prems(2) have "d \<in> set (upper_char U ?k) \<or> d \<in> set (erd_sanitize_name U x)"
    by (simp only: erd_sanitize_name_Cons set_append Un_iff)
  then show ?case
  proof
    assume "d \<in> set (upper_char U ?k)"
    with upper_stable_kept [OF c] show ?thesis by (rule upper_stable_chars)
  next
    assume "d \<in> set (erd_sanitize_name U x)"
    with x show ?thesis by (rule Cons.IH)
  qed
qed

lemma erd_sanitize_name_idem:
  assumes "\<forall>c\<in>set x. isalnum U c \<longrightarrow> upper_stable U c"
  shows "erd_sanitize_name U (erd_sanitize_name U x) = erd_sanitize_name U x"
proof (rule erd_sanitize_name_fixed, rule ballI)
  fix d
  assume "d \<in> set (erd_sanitize_name U x)"
  with assms show "(isalnum U d \<or> d = 95) \<and> upper_char U d = [d]"
    by (rule erd_sanitize_name_chars)
qed

lemma erd_sanitize_name_idem_ascii:
  assumes "\<forall>c\<in>set x. c < 128"
  shows "erd_sanitize_name U (erd_sanitize_name U x) = erd_sanitize_name U x"
proof (rule erd_sanitize_name_idem, rule ballI, rule impI)
  fix c
  assume "c \<in> set x" and a: "isalnum U c"
  with assms have "c < 128" by (rule_tac bspec)
  then show "upper_stable U c" using a by (rule upper_stable_ascii)
qed

text \<open>
  Claim C8, amended. The DDL sanitization is idempotent on every name. The diagram's
  sanitization, which upper-cases after replacing, is idempotent on every name whose
  alphanumeric characters are \<open>upper_stable\<close>: their upper-case mapping consists of
  characters that are alphanumeric (or the underscore) and that upper-casing leaves as
  they are. Every ASCII name is of that kind.
\<close>

theorem sanitize_name_idempotent_when_upper_stable:
  "sql_sanitize_name U (sql_sanitize_name U x) = sql_sanitize_name U x
   \<and> ((\<forall>c\<in>set x. isalnum U c \<longrightarrow> upper_stable U c)
        \<longrightarrow> erd_sanitize_name U (erd_sanitize_name U x) = erd_sanitize_name U x)
   \<and> ((\<forall>c\<in>set x. c < 128)
        \<longrightarrow> erd_sanitize_name U (erd_sanitize_name U x) = erd_sanitize_name U x)"
proof (intro conjI impI)
  show "sql_sanitize_name U (sql_sanitize_name U x) = sql_sanitize_name U x"
    by (rule sql_sanitize_name_idem)
next
  assume "\<forall>c\<in>set x. isalnum U c \<longrightarrow> upper_stable U c"
  then show "erd_sanitize_name U (erd_sanitize_name U x) = erd_sanitize_name U x"
    by (rule erd_sanitize_name_idem)
next
  assume "\<forall>c\<in>set x. c < 128"
  then show "erd_sanitize_name U (erd_sanitize_name U x) = erd_sanitize_name U x"
    by (rule erd_sanitize_name_idem_ascii)
qed

text \<open>
  Claim C8, as stated, fails for the diagram's sanitization. The letter U+01F0 is
  alphanumeric and is kept; upper-casing turns it into \<open>J\<close> followed by the combining
  caron U+030C, which is not alphanumeric. A second sanitization replaces the caron by
  an underscore.
\<close>

theorem erd_sanitize_name_not_idempotent:
  "erd_sanitize_name caron_db [496] = [74, 780]
   \<and> erd_sanitize_name caron_db (erd_sanitize_name caron_db [496]) = [74, 95]
   \<and> erd_sanitize_name caron_db (erd_sanitize_name caron_db [496])
       \<noteq> erd_sanitize_name caron_db [496]"
proof -
  have a: "erd_sanitize_name caron_db [496] = [74, 780]"
    by (simp add: erd_sanitize_name_def upper_def upper_char_def isalnum_def caron_db_def)
  have b: "erd_sanitize_name caron_db [74, 780] = [74, 95]"
    by (simp add: erd_sanitize_name_def upper_def upper_char_def isalnum_def caron_db_def)
  show ?thesis unfolding a b by simp
qed

lemma order_items_ascii: "\<forall>c\<in>set (lit ''order items''). c < 128"
  by (simp add: lit_def)

lemma order_items_sql: "sql_sanitize_name ascii_db (lit ''order items'') = lit ''order_items''"
  by (simp add: lit_def sql_sanitize_name_def isalnum_def)

lemma order_items_erd: "erd_sanitize_name ascii_db (lit ''order items'') = lit ''ORDER_ITEMS''"
  by (simp add: lit_def erd_sanitize_name_def isalnum_def upper_def upper_char_def)

theorem sanitize_name_idempotent_when_upper_stable_witness:
  "sql_sanitize_name ascii_db (lit ''order items'') = lit ''order_items''
   \<and> sql_sanitize_name ascii_db (lit ''order_items'') = lit ''order_items''
   \<and> erd_sanitize_name ascii_db (lit ''order items'') = lit ''ORDER_ITEMS''
   \<and> erd_sanitize_name ascii_db (lit ''ORDER_ITEMS'') = lit ''ORDER_ITEMS''"
proof -
  note w = sanitize_name_idempotent_when_upper_stable [of ascii_db "lit ''order items''"]
  from w [THEN conjunct1]
  have s: "sql_sanitize_name ascii_db (lit ''order_items'') = lit ''order_items''"
    unfolding order_items_sql .
  from w [THEN conjunct2, THEN conjunct2, THEN mp, OF order_items_ascii]
  have e: "erd_sanitize_name ascii_db (lit ''ORDER_ITEMS'') = lit ''ORDER_ITEMS''"
    unfolding order_items_erd .
  from order_items_sql s order_items_erd e show ?thesis
    by (intro conjI)
qed

section \<open>The AUTO_INCREMENT allow-list\<close>

lemma auto_increment_not_default: "lit ''AUTO_INCREMENT'' \<noteq> lit ''DEFAULT '' @ v"
  by (simp add: lit_def)

lemma column_definition_parts_auto_increment:
  "lit ''AUTO_INCREMENT'' \<in> set (drop 2 (column_definition_parts U col))
   \<longleftrightarrow> is_primary_key col
       \<and> upper U (data_type col) \<in> {lit ''INTEGER'', lit ''INT'', lit ''BIGINT''}"
  by (simp add: column_definition_parts_def auto_increment_not_default)

lemma column_line_constraints_auto_increment:
  "lit ''AUTO_INCREMENT'' \<in> set (column_line_constraints U col)
   \<longleftrightarrow> is_primary_key col
       \<and> upper U (data_type col) \<in> {lit ''INTEGER'', lit ''INT'', lit ''BIGINT''}"
  by (simp add: column_line_constraints_def auto_increment_not_default)

lemma map_of_smallint: "map_of MYSQL_TYPE_MAP (lit ''SMALLINT'') = Some (lit ''SMALLINT'')"
  by (simp add: MYSQL_TYPE_MAP_def)

lemma smallint_not_listed: "lit ''SMALLINT'' \<notin> {lit ''INTEGER'', lit ''INT'', lit ''BIGINT''}"
  by simp

text \<open>
  Claim C10. In both generators the AUTO_INCREMENT attribute is among the attributes of a
  column (the parts after name and type of the DDL line, the constraint tags of the
  diagram line) exactly when the column is a primary key and its upper-cased abstract
  type is INTEGER, INT or BIGINT. A column whose upper-cased type is SMALLINT is mapped
  to the dialect type SMALLINT by the Type Mapper and never receives the attribute, be
  it a primary key or not.
\<close>

theorem smallint_primary_key_never_auto_increment:
  "(lit ''AUTO_INCREMENT'' \<in> set (drop 2 (column_definition_parts U col))
      \<longleftrightarrow> is_primary_key col
          \<and> upper U (data_type col) \<in> {lit ''INTEGER'', lit ''INT'', lit ''BIGINT''})
   \<and> (lit ''AUTO_INCREMENT'' \<in> set (column_line_constraints U col)
      \<longleftrightarrow> is_primary_key col
          \<and> upper U (data_type col) \<in> {lit ''INTEGER'', lit ''INT'', lit ''BIGINT''})
   \<and> (upper U (data_type col) = lit ''SMALLINT''
      \<longrightarrow> map_to_mysql_type U (data_type col) = lit ''SMALLINT''
          \<and> lit ''AUTO_INCREMENT'' \<notin> set (drop 2 (column_definition_parts U col))
          \<and> lit ''AUTO_INCREMENT'' \<notin> set (column_line_constraints U col)
          \<and> \<not> auto_increment_follows (column_definition_head U col)
                (generate_column_definition U col))"
proof (intro conjI impI)
  show "lit ''AUTO_INCREMENT'' \<in> set (drop 2 (column_definition_parts U col))
      \<longleftrightarrow> is_primary_key col
          \<and> upper U (data_type col) \<in> {lit ''INTEGER'', lit ''INT'', lit ''BIGINT''}"
    by (rule column_definition_parts_auto_increment)
  show "lit ''AUTO_INCREMENT'' \<in> set (column_line_constraints U col)
      \<longleftrightarrow> is_primary_key col
          \<and> upper U (data_type col) \<in> {lit ''INTEGER'', lit ''INT'', lit ''BIGINT''}"
    by (rule column_line_constraints_auto_increment)
next
  assume s: "upper U (data_type col) = lit ''SMALLINT''"
  show "map_to_mysql_type U (data_type col) = lit ''SMALLINT''"
    by (simp only: map_to_mysql_type_def s map_of_smallint option.case)
  from s smallint_not_listed
  have n: "\<not> (is_primary_key col
          \<and> upper U (data_type col) \<in> {lit ''INTEGER'', lit ''INT'', lit ''BIGINT''})"
    by (simp only: simp_thms)
  from n show "lit ''AUTO_INCREMENT'' \<notin> set (drop 2 (column_definition_parts U col))"
    by (simp only: column_definition_parts_auto_increment not_False_eq_True)
  from n show "lit ''AUTO_INCREMENT'' \<notin> set (column_line_constraints U col)"
    by (simp only: column_line_constraints_auto_increment not_False_eq_True)
  from n show "\<not> auto_increment_follows (column_definition_head U col)
                (generate_column_definition U col)"
    by (simp only: column_definition_auto_increment not_False_eq_True)
qed

lemma smallint_key_upper: "upper ascii_db (data_type smallint_key_column) = lit ''SMALLINT''"
  by (simp add: smallint_key_column_def plain_column_def lit_def upper_def upper_char_def)

lemma smallint_key_definition:
  "generate_column_definition ascii_db smallint_key_column = lit ''code SMALLINT''"
proof -
  have "map_type ascii_db (data_type smallint_key_column) = lit ''SMALLINT''"
    by (simp only: map_type_def map_to_mysql_type_def smallint_key_upper map_of_smallint
        option.case)
  moreover have "sql_sanitize_name ascii_db (column.name smallint_key_column) = lit ''code''"
    by (simp add: smallint_key_column_def plain_column_def lit_def sql_sanitize_name_def
        isalnum_def)
  moreover have "drop 2 (column_definition_parts ascii_db smallint_key_column) = []"
    by (simp add: column_definition_parts_def smallint_key_upper)
       (simp add: smallint_key_column_def plain_column_def)
  ultimately show ?thesis
    by (simp add: generate_column_definition_eq column_definition_head_def lit_def)
qed

lemma smallint_key_line:
  "generate_column_line ascii_db smallint_key_column = lit ''SMALLINT CODE PK''"
proof -
  have "map_to_mysql_type ascii_db (data_type smallint_key_column) = lit ''SMALLINT''"
    by (simp only: map_to_mysql_type_def smallint_key_upper map_of_smallint option.case)
  moreover have "mysql_type_clean (lit ''SMALLINT'') = lit ''SMALLINT''"
    by (simp add: mysql_type_clean_eq lit_def)
  moreover have "erd_sanitize_name ascii_db (column.name smallint_key_column) = lit ''CODE''"
    by (simp add: smallint_key_column_def plain_column_def lit_def erd_sanitize_name_def
        isalnum_def upper_def upper_char_def)
  moreover have "column_line_constraints ascii_db smallint_key_column = []"
    by (simp add: column_line_constraints_def smallint_key_upper)
       (simp add: smallint_key_column_def plain_column_def)
  moreover have "is_primary_key smallint_key_column"
    by (simp add: smallint_key_column_def)
  ultimately show ?thesis
    by (simp add: generate_column_line_def Let_def lit_def)
qed

text \<open>
  \<open>smallint_key_column\<close> is a primary key of type \<open>smallint\<close>.
\<close>

theorem smallint_primary_key_never_auto_increment_witness:
  "is_primary_key smallint_key_column
   \<and> data_type smallint_key_column = lit ''smallint''
   \<and> map_to_mysql_type ascii_db (data_type smallint_key_column) = lit ''SMALLINT''
   \<and> lit ''AUTO_INCREMENT'' \<notin> set (drop 2 (column_definition_parts ascii_db smallint_key_column))
   \<and> lit ''AUTO_INCREMENT'' \<notin> set (column_line_constraints ascii_db smallint_key_column)
   \<and> generate_column_definition ascii_db smallint_key_column = lit ''code SMALLINT''
   \<and> generate_column_line ascii_db smallint_key_column = lit ''SMALLINT CODE PK''"
proof -
  have p: "is_primary_key smallint_key_column"
    by (simp add: smallint_key_column_def)
  have d: "data_type smallint_key_column = lit ''smallint''"
    by (simp add: smallint_key_column_def plain_column_def)
  note w = smallint_primary_key_never_auto_increment [of ascii_db smallint_key_column, THEN conjunct2, THEN conjunct2, THEN mp,
                OF smallint_key_upper]
  from p d w [THEN conjunct1] w [THEN conjunct2, THEN conjunct1]
    w [THEN conjunct2, THEN conjunct2, THEN conjunct1] smallint_key_definition smallint_key_line
  show ?thesis by (intro conjI)
qed

end
